theory Spec2Isabelle
  imports Complex_Main "HOL-Library.Word"
begin

section \<open>Floating-point values\<close>

text \<open>
  A C++ \<^verbatim>\<open>float\<close> or \<^verbatim>\<open>double\<close> is a quiet NaN, an infinity or a finite value, which is a
  rational number. Every arithmetic operation rounds its exact result; the rounding function
  is a parameter of the model: \<open>exact\<close> is arithmetic without rounding and \<open>binary32\<close>
  is IEEE 754 single precision (round to nearest, ties to even, with subnormals and overflow
  to infinity). The same rounding function stands for every operation of a run, also for
  the few that the source performs in \<^verbatim>\<open>double\<close>. Zero carries no sign in this model, so a
  division by zero gives the infinity with the sign of the dividend.
\<close>

datatype float = QNAN | PInf | NInf | Fin rat

type_synonym rounding = "rat \<Rightarrow> float"

text \<open>
  Negation, addition, subtraction, multiplication and division. Only the result of an
  operation on two finite values is rounded; the results for a NaN or an infinity are those
  of IEEE 754.
\<close>

fun fneg :: "float \<Rightarrow> float" where
  "fneg QNAN = QNAN"
| "fneg PInf = NInf"
| "fneg NInf = PInf"
| "fneg (Fin x) = Fin (- x)"

fun fadd :: "rounding \<Rightarrow> float \<Rightarrow> float \<Rightarrow> float" where
  "fadd rnd (Fin x) (Fin y) = rnd (x + y)"
| "fadd rnd QNAN b = QNAN"
| "fadd rnd a QNAN = QNAN"
| "fadd rnd PInf NInf = QNAN"
| "fadd rnd NInf PInf = QNAN"
| "fadd rnd PInf b = PInf"
| "fadd rnd NInf b = NInf"
| "fadd rnd a PInf = PInf"
| "fadd rnd a NInf = NInf"

definition fsub :: "rounding \<Rightarrow> float \<Rightarrow> float \<Rightarrow> float" where
  "fsub rnd a b = fadd rnd a (fneg b)"

fun fsgn :: "float \<Rightarrow> int" where
  "fsgn QNAN = 0"
| "fsgn PInf = 1"
| "fsgn NInf = - 1"
| "fsgn (Fin x) = (if 0 < x then 1 else if x < 0 then - 1 else 0)"

definition signed_inf :: "int \<Rightarrow> float" where
  "signed_inf s = (if 0 < s then PInf else if s < 0 then NInf else QNAN)"

fun fmul :: "rounding \<Rightarrow> float \<Rightarrow> float \<Rightarrow> float" where
  "fmul rnd (Fin x) (Fin y) = rnd (x * y)"
| "fmul rnd QNAN b = QNAN"
| "fmul rnd a QNAN = QNAN"
| "fmul rnd a b = signed_inf (fsgn a * fsgn b)"

fun fdiv :: "rounding \<Rightarrow> float \<Rightarrow> float \<Rightarrow> float" where
  "fdiv rnd (Fin x) (Fin y) = (if y = 0 then signed_inf (fsgn (Fin x)) else rnd (x / y))"
| "fdiv rnd QNAN b = QNAN"
| "fdiv rnd a QNAN = QNAN"
| "fdiv rnd (Fin x) b = Fin 0"
| "fdiv rnd a (Fin y) = signed_inf (fsgn a * (if y < 0 then - 1 else 1))"
| "fdiv rnd a b = QNAN"

text \<open>
  The comparisons \<^verbatim>\<open>a < b\<close>, \<^verbatim>\<open>a == b\<close> and \<^verbatim>\<open>a <= b\<close>: each is false when an operand is a
  NaN.
\<close>

fun flt :: "float \<Rightarrow> float \<Rightarrow> bool" where
  "flt (Fin x) (Fin y) = (x < y)"
| "flt QNAN b = False"
| "flt a QNAN = False"
| "flt NInf NInf = False"
| "flt NInf b = True"
| "flt a NInf = False"
| "flt PInf b = False"
| "flt a PInf = True"

definition feq :: "float \<Rightarrow> float \<Rightarrow> bool" where
  "feq a b = (a \<noteq> QNAN \<and> a = b)"

definition fle :: "float \<Rightarrow> float \<Rightarrow> bool" where
  "fle a b = (flt a b \<or> feq a b)"

text \<open>
  A rounding function is monotone when a larger exact result never rounds to a smaller
  float. Such a function never returns a NaN.
\<close>

definition monotone_rounding :: "rounding \<Rightarrow> bool" where
  "monotone_rounding rnd \<longleftrightarrow> (\<forall>x y. x \<le> y \<longrightarrow> fle (rnd x) (rnd y))"

text \<open>Arithmetic without rounding.\<close>

definition exact :: rounding where
  "exact x = Fin x"

text \<open>
  Single precision. \<open>pow2 e\<close> is the power \<open>2\<^sup>e\<close> for an integer exponent, \<open>ibits n\<close> the
  number of binary digits of a positive integer, \<open>ilog2 a\<close> the exponent \<open>e\<close> with
  \<open>2\<^sup>e \<le> a < 2\<^sup>e\<^sup>+\<^sup>1\<close> of a positive rational, found from the digits of its numerator and
  denominator, and \<open>round_even q\<close> the integer nearest to \<open>q\<close>, the even one of the two when
  \<open>q\<close> lies half way.
\<close>

definition pow2 :: "int \<Rightarrow> rat" where
  "pow2 e = (if 0 \<le> e then 2 ^ nat e else 1 / 2 ^ nat (- e))"

function ibits :: "int \<Rightarrow> int" where
  "ibits n = (if n \<le> 0 then 0 else 1 + ibits (n div 2))"
  by pat_completeness auto
termination
  by (relation "measure nat") auto

declare ibits.simps [simp del]

definition ilog2 :: "rat \<Rightarrow> int" where
  "ilog2 a = (let (p, q) = quotient_of a; k = ibits p - ibits q
              in if pow2 k \<le> a then k else k - 1)"

definition round_even :: "rat \<Rightarrow> int" where
  "round_even q = (let n = \<lfloor>q\<rfloor>; r = q - of_int n
                   in if r < 1 / 2 then n else if 1 / 2 < r then n + 1
                      else if even n then n else n + 1)"

text \<open>
  The magnitude \<open>a > 0\<close> rounded to 24 significant bits: \<open>e\<close> is the exponent of \<open>a\<close>, not
  below that of the smallest normal number, and \<open>u\<close> the unit in the last place. A rounded
  magnitude of \<open>2\<^sup>1\<^sup>2\<^sup>8\<close> or more overflows to an infinity.
\<close>

definition round_magnitude :: "rat \<Rightarrow> rat" where
  "round_magnitude a =
     (let e = max (ilog2 a) (- 126); u = pow2 (e - 23) in of_int (round_even (a / u)) * u)"

definition binary32 :: rounding where
  "binary32 x = (if x = 0 then Fin 0 else
     let r = round_magnitude \<bar>x\<bar>
     in if pow2 128 \<le> r then (if 0 < x then PInf else NInf)
        else Fin (if 0 < x then r else - r))"


section \<open>Plane sweep engine: the depth hypotheses of one source view\<close>

text \<open>
  \<^verbatim>\<open>float dstep = (zfar - znear) / (numberplanes - 1);\<close> and
  \<^verbatim>\<open>for (float d = znear; d <= zfar; d += dstep) { ... }\<close> of \<^verbatim>\<open>PlaneSweepThread\<close>.
  The header declaring \<^verbatim>\<open>numberplanes\<close> is not part of the sources; it is taken as an
  unsigned 32-bit integer. The loop need not terminate (\<^verbatim>\<open>dstep\<close> may be zero or too
  small to change \<^verbatim>\<open>d\<close>), so its result is an option and \<open>None\<close> means that it runs
  forever. The work done for one depth hypothesis is the parameter \<open>body\<close>.
\<close>

definition PlaneSweepThread_dstep :: "rounding \<Rightarrow> float \<Rightarrow> float \<Rightarrow> 32 word \<Rightarrow> float" where
  "PlaneSweepThread_dstep rnd znear zfar numberplanes =
     fdiv rnd (fsub rnd zfar znear) (rnd (of_nat (unat (numberplanes - 1))))"

partial_function (option) depth_loop ::
  "rounding \<Rightarrow> float \<Rightarrow> float \<Rightarrow> float \<Rightarrow> (float \<Rightarrow> 's \<Rightarrow> 's) \<Rightarrow> 's \<Rightarrow> 's option" where
  "depth_loop rnd d zfar dstep body s =
     (if fle d zfar then depth_loop rnd (fadd rnd d dstep) zfar dstep body (body d s)
      else Some s)"

declare depth_loop.simps [code]

definition PlaneSweepThread_depths :: "rounding \<Rightarrow> float \<Rightarrow> float \<Rightarrow> 32 word \<Rightarrow> float list option" where
  "PlaneSweepThread_depths rnd znear zfar numberplanes =
     depth_loop rnd znear zfar (PlaneSweepThread_dstep rnd znear zfar numberplanes)
       (\<lambda>d tr. tr @ [d]) []"


section \<open>Plane sweep engine: source views used by a run\<close>

text \<open>
  \<^verbatim>\<open>int nimgs = std::min(std::max((int)numberimages, 1), (int)HostSrc.size());\<close>
  (\<^verbatim>\<open>RunAlgorithm\<close>) and the same expression for \<^verbatim>\<open>nimages\<close> in \<^verbatim>\<open>TGV\<close>.
  The header declaring \<^verbatim>\<open>numberimages\<close> is not part of the sources, so the value of the
  cast \<^verbatim>\<open>(int)numberimages\<close> is a parameter. The cast of the \<^verbatim>\<open>size_t\<close> length of
  \<^verbatim>\<open>HostSrc\<close> to a 32-bit \<^verbatim>\<open>int\<close> is written out with its wrap-around.
\<close>

definition int_of_size :: "nat \<Rightarrow> int" where
  "int_of_size n = (let m = int n mod 2 ^ 32 in if m < 2 ^ 31 then m else m - 2 ^ 32)"

definition RunAlgorithm_nimgs :: "int \<Rightarrow> 'a list \<Rightarrow> int" where
  "RunAlgorithm_nimgs numberimages HostSrc =
     min (max numberimages 1) (int_of_size (length HostSrc))"

definition TGV_nimages :: "int \<Rightarrow> 'a list \<Rightarrow> int" where
  "TGV_nimages numberimages HostSrc =
     min (max numberimages 1) (int_of_size (length HostSrc))"

text \<open>
  \<^verbatim>\<open>for (int i = 0; i < nimgs; i++) body(i)\<close>: the loop over the source views, with the
  loop body a parameter that transforms the state of the run.
\<close>

function for_views :: "int \<Rightarrow> int \<Rightarrow> (nat \<Rightarrow> 's \<Rightarrow> 's) \<Rightarrow> 's \<Rightarrow> 's" where
  "for_views i nimgs body s =
     (if i < nimgs then for_views (i + 1) nimgs body (body (nat i) s) else s)"
  by pat_completeness auto
termination
  by (relation "measure (\<lambda>(i, nimgs, body, s). nat (nimgs - i))") auto

declare for_views.simps [simp del]

text \<open>The indices of the source views a run touches, in the order of the loop.\<close>

definition RunAlgorithm_views :: "int \<Rightarrow> 'a list \<Rightarrow> nat list" where
  "RunAlgorithm_views numberimages HostSrc =
     for_views 0 (RunAlgorithm_nimgs numberimages HostSrc) (\<lambda>i tr. tr @ [i]) []"

definition TGV_views :: "int \<Rightarrow> 'a list \<Rightarrow> nat list" where
  "TGV_views numberimages HostSrc =
     for_views 0 (TGV_nimages numberimages HostSrc) (\<lambda>i tr. tr @ [i]) []"


section \<open>Images\<close>

text \<open>
  \<^verbatim>\<open>CamImage<T>\<close>: a host image of \<^verbatim>\<open>width() * height()\<close> elements in row-major order (the pitch of
  the buffer and the camera pose kept with the image are left out; the functions below read
  the pose through their own arguments).
\<close>

record 'a CamImage =
  width :: nat
  height :: nat
  data :: "'a list"

text \<open>
  Modelled from the spec: \<^verbatim>\<open>CamImage::reset(w, h)\<close>, whose header is not part of the sources.
  The image is created empty, sized \<open>w\<close> by \<open>h\<close>; every element holds the given fill value.
\<close>

definition CamImage_reset :: "nat \<Rightarrow> nat \<Rightarrow> 'a \<Rightarrow> 'a CamImage" where
  "CamImage_reset w h fill = \<lparr>width = w, height = h, data = replicate (w * h) fill\<rparr>"

text \<open>
  \<^verbatim>\<open>for (size_t i = 0; i < n; ++i) body(i)\<close>: a counting loop over an unsigned index, with
  the loop body a parameter.
\<close>

function for_loop :: "nat \<Rightarrow> nat \<Rightarrow> (nat \<Rightarrow> 's \<Rightarrow> 's) \<Rightarrow> 's \<Rightarrow> 's" where
  "for_loop i n body s = (if i < n then for_loop (Suc i) n body (body i s) else s)"
  by pat_completeness auto
termination
  by (relation "measure (\<lambda>(i, n, body, s). n - i)") auto

declare for_loop.simps [simp del]

section \<open>Quantization of a depth map to 8 bits\<close>

text \<open>
  \<^verbatim>\<open>std::max(a, b)\<close> is \<^verbatim>\<open>(a < b) ? b : a\<close> and \<^verbatim>\<open>std::min(a, b)\<close> is \<^verbatim>\<open>(b < a) ? b : a\<close>.
  The conversion of a float to \<^verbatim>\<open>uchar\<close> truncates towards zero and is undefined
  (\<open>None\<close>) when the truncated value does not fit or the float is not finite.
\<close>

definition fmax_std :: "float \<Rightarrow> float \<Rightarrow> float" where
  "fmax_std a b = (if flt a b then b else a)"

definition fmin_std :: "float \<Rightarrow> float \<Rightarrow> float" where
  "fmin_std a b = (if flt b a then b else a)"

definition uchar_cast :: "float \<Rightarrow> 8 word option" where
  "uchar_cast v = (case v of
       Fin x \<Rightarrow> if - 1 < x \<and> x < 256 then Some (word_of_int (if 0 \<le> x then \<lfloor>x\<rfloor> else 0)) else None
     | _ \<Rightarrow> None)"

text \<open>
  The body of the loops of \<^verbatim>\<open>ConvertDepthtoUChar\<close> for one pixel: \<^verbatim>\<open>v == v\<close> fails exactly for
  a NaN; \<^verbatim>\<open>UCHAR_MAX\<close> is the integer 255, converted to float for the product.
\<close>

definition ConvertDepthtoUChar_pixel :: "rounding \<Rightarrow> float \<Rightarrow> float \<Rightarrow> float \<Rightarrow> 8 word option" where
  "ConvertDepthtoUChar_pixel rnd znear zfar v =
     (if feq v v
      then uchar_cast (fmul rnd (rnd 255)
             (fmin_std (fmax_std (fdiv rnd (fsub rnd v znear) (fsub rnd zfar znear)) (Fin 0)) (Fin 1)))
      else Some 255)"

text \<open>
  \<^verbatim>\<open>ConvertDepthtoUChar\<close>: the output is reset to the size of the input, then the loops over
  \<^verbatim>\<open>x\<close> and \<^verbatim>\<open>y\<close> write element \<^verbatim>\<open>int i = x + y * input.width()\<close>. The result is \<open>None\<close>
  when the conversion of some pixel is undefined.
\<close>

definition ConvertDepthtoUChar ::
  "rounding \<Rightarrow> float \<Rightarrow> float \<Rightarrow> float CamImage \<Rightarrow> 8 word CamImage option" where
  "ConvertDepthtoUChar rnd znear zfar input =
     (let w = width input; h = height input;
          output = CamImage_reset w h 0
      in map_option (\<lambda>d. output\<lparr>data := d\<rparr>)
           (for_loop 0 w (\<lambda>x. for_loop 0 h (\<lambda>y out.
               let i = nat (int_of_size (x + y * w))
               in case out of None \<Rightarrow> None
                  | Some buf \<Rightarrow>
                      (case ConvertDepthtoUChar_pixel rnd znear zfar (data input ! i) of
                         None \<Rightarrow> None
                       | Some v \<Rightarrow> Some (buf[i := v]))))
              (Some (data output))))"

section \<open>Relative pose of a source view\<close>

text \<open>
  Modelled from the spec: \<^verbatim>\<open>Vector3D\<close> and \<^verbatim>\<open>Matrix3D\<close> with their operators, whose header is
  not part of the sources. A vector has three components and a matrix nine, in row-major
  order; the difference of vectors, the products, the transpose \<^verbatim>\<open>trans()\<close> and the inverse
  \<^verbatim>\<open>inv()\<close> are those of linear algebra, in exact arithmetic. The inverse of a singular
  matrix is not defined (\<open>None\<close>).
\<close>

datatype Vector3D = Vector3D rat rat rat

datatype Matrix3D = Matrix3D rat rat rat  rat rat rat  rat rat rat

fun vec_sub :: "Vector3D \<Rightarrow> Vector3D \<Rightarrow> Vector3D" where
  "vec_sub (Vector3D a b c) (Vector3D x y z) = Vector3D (a - x) (b - y) (c - z)"

fun vec_neg :: "Vector3D \<Rightarrow> Vector3D" where
  "vec_neg (Vector3D a b c) = Vector3D (- a) (- b) (- c)"

fun mat_vec :: "Matrix3D \<Rightarrow> Vector3D \<Rightarrow> Vector3D" where
  "mat_vec (Matrix3D a b c d e f g h i) (Vector3D x y z) =
     Vector3D (a * x + b * y + c * z) (d * x + e * y + f * z) (g * x + h * y + i * z)"

fun mat_mul :: "Matrix3D \<Rightarrow> Matrix3D \<Rightarrow> Matrix3D" where
  "mat_mul (Matrix3D a b c d e f g h i) (Matrix3D a' b' c' d' e' f' g' h' i') =
     Matrix3D (a * a' + b * d' + c * g') (a * b' + b * e' + c * h') (a * c' + b * f' + c * i')
              (d * a' + e * d' + f * g') (d * b' + e * e' + f * h') (d * c' + e * f' + f * i')
              (g * a' + h * d' + i * g') (g * b' + h * e' + i * h') (g * c' + h * f' + i * i')"

fun mat_trans :: "Matrix3D \<Rightarrow> Matrix3D" where
  "mat_trans (Matrix3D a b c d e f g h i) = Matrix3D a d g  b e h  c f i"

fun mat_det :: "Matrix3D \<Rightarrow> rat" where
  "mat_det (Matrix3D a b c d e f g h i) =
     a * (e * i - f * h) - b * (d * i - f * g) + c * (d * h - e * g)"

fun adjugate :: "Matrix3D \<Rightarrow> Matrix3D" where
  "adjugate (Matrix3D a b c d e f g h i) =
     Matrix3D (e * i - f * h) (c * h - b * i) (b * f - c * e)
              (f * g - d * i) (a * i - c * g) (c * d - a * f)
              (d * h - e * g) (b * g - a * h) (a * e - b * d)"

fun mat_scale :: "rat \<Rightarrow> Matrix3D \<Rightarrow> Matrix3D" where
  "mat_scale k (Matrix3D a b c d e f g h i) =
     Matrix3D (k * a) (k * b) (k * c) (k * d) (k * e) (k * f) (k * g) (k * h) (k * i)"

definition mat_inv :: "Matrix3D \<Rightarrow> Matrix3D option" where
  "mat_inv M = (if mat_det M = 0 then None else Some (mat_scale (1 / mat_det M) (adjugate M)))"

definition mat_identity :: Matrix3D where
  "mat_identity = Matrix3D 1 0 0  0 1 0  0 0 1"

definition orthonormal :: "Matrix3D \<Rightarrow> bool" where
  "orthonormal M \<longleftrightarrow> mat_mul M (mat_trans M) = mat_identity \<and> mat_mul (mat_trans M) M = mat_identity"

text \<open>
  \<^verbatim>\<open>RelativeMatrices\<close>: the relative rotation and translation of a source view, by
  the derivation that the flag \<^verbatim>\<open>alternativemethod\<close> selects.
\<close>

definition RelativeMatrices ::
  "bool \<Rightarrow> Matrix3D \<Rightarrow> Vector3D \<Rightarrow> Matrix3D \<Rightarrow> Vector3D \<Rightarrow> (Matrix3D \<times> Vector3D) option" where
  "RelativeMatrices alternativemethod Rref tref Rsrc tsrc =
     (if \<not> alternativemethod then
        (case mat_inv Rref of
           None \<Rightarrow> None
         | Some Rref_inv \<Rightarrow>
             let Rrel = mat_mul Rsrc Rref_inv;
                 trel = vec_sub tsrc (mat_vec Rrel tref)
             in Some (Rrel, trel))
      else
        let Rrel = mat_mul (mat_trans Rsrc) Rref;
            trel = mat_vec (mat_trans Rsrc) (vec_sub tref tsrc)
        in Some (Rrel, trel))"


section \<open>Device images and kernels\<close>

text \<open>
  A device image \<^verbatim>\<open>Image<float>\<close> of a \<open>w\<close> by \<open>h\<close> run is the list of its \<open>w * h\<close> pixels.
  The kernels run one thread per pixel; none of them is part of the sources.

  Modelled from the spec: the constructor \<^verbatim>\<open>Image<float>(w, h)\<close>. The accumulators of a
  reconstruction are reset once per reconstruction, so a new image holds zeros.
\<close>

definition Image_new :: "nat \<Rightarrow> nat \<Rightarrow> float list" where
  "Image_new w h = replicate (w * h) (Fin 0)"

text \<open>
  Modelled from the spec: the kernel \<^verbatim>\<open>update_arrays\<close>. If the NCC at a pixel exceeds the
  running best, the best becomes that NCC and the depth becomes \<open>d\<close>.
\<close>

definition update_arrays ::
  "nat \<Rightarrow> nat \<Rightarrow> float list \<times> float list \<Rightarrow> float list \<Rightarrow> float \<Rightarrow> float list \<times> float list" where
  "update_arrays w h acc devNCC d =
     (case acc of (devDepth, devbestNCC) \<Rightarrow>
        (map (\<lambda>p. if flt (devbestNCC ! p) (devNCC ! p) then d else devDepth ! p) [0 ..< w * h],
         map (\<lambda>p. if flt (devbestNCC ! p) (devNCC ! p) then devNCC ! p else devbestNCC ! p)
           [0 ..< w * h]))"

text \<open>
  Modelled from the spec: the kernel \<^verbatim>\<open>sum_depthmap_NCC\<close>. If the best NCC of the view
  exceeds the acceptance threshold, the depth is added to the running sum and the count is
  incremented.
\<close>

definition sum_depthmap_NCC ::
  "rounding \<Rightarrow> nat \<Rightarrow> nat \<Rightarrow> float list \<times> float list \<Rightarrow> float list \<times> float list \<Rightarrow> float
     \<Rightarrow> float list \<times> float list" where
  "sum_depthmap_NCC rnd w h glob best nccthresh =
     (case (glob, best) of ((globDepth, globN), (devDepth, devbestNCC)) \<Rightarrow>
        (map (\<lambda>p. if flt nccthresh (devbestNCC ! p)
                   then fadd rnd (globDepth ! p) (devDepth ! p) else globDepth ! p) [0 ..< w * h],
         map (\<lambda>p. if flt nccthresh (devbestNCC ! p)
                   then fadd rnd (globN ! p) (Fin 1) else globN ! p) [0 ..< w * h]))"

text \<open>
  Modelled from the spec: the kernels \<^verbatim>\<open>element_rdivide\<close> and \<^verbatim>\<open>set_QNAN_value\<close>, which
  together give the final depth: the sum divided by the count where the count is positive,
  else undefined. The division of a zero sum by a zero count is a NaN, and a pixel that is
  not a number is marked with the quiet NaN that encodes an undefined depth. The spec gives
  no role to the value passed to \<^verbatim>\<open>set_QNAN_value\<close>.
\<close>

definition element_rdivide :: "rounding \<Rightarrow> nat \<Rightarrow> nat \<Rightarrow> float list \<Rightarrow> float list \<Rightarrow> float list" where
  "element_rdivide rnd w h a b = map (\<lambda>p. fdiv rnd (a ! p) (b ! p)) [0 ..< w * h]"

definition set_QNAN_value :: "nat \<Rightarrow> nat \<Rightarrow> float list \<Rightarrow> float \<Rightarrow> float list" where
  "set_QNAN_value w h img val = map (\<lambda>p. if feq (img ! p) (img ! p) then img ! p else QNAN) [0 ..< w * h]"

text \<open>
  Modelled from the spec: the kernels \<^verbatim>\<open>element_add\<close> and \<^verbatim>\<open>element_scale\<close>, which add a
  constant to every pixel and multiply every pixel by a constant.
\<close>

definition element_add :: "rounding \<Rightarrow> nat \<Rightarrow> nat \<Rightarrow> float list \<Rightarrow> float \<Rightarrow> float list" where
  "element_add rnd w h img c = map (\<lambda>p. fadd rnd (img ! p) c) [0 ..< w * h]"

definition element_scale :: "rounding \<Rightarrow> nat \<Rightarrow> nat \<Rightarrow> float list \<Rightarrow> float \<Rightarrow> float list" where
  "element_scale rnd w h img k = map (\<lambda>p. fmul rnd (img ! p) k) [0 ..< w * h]"


section \<open>The engine\<close>

text \<open>
  The fields of \<^verbatim>\<open>PlaneSweep\<close> that the entry points read and write. The class declaration is
  not part of the sources: \<^verbatim>\<open>numberimages\<close> stands for the value of \<^verbatim>\<open>(int)numberimages\<close>,
  the device buffer \<^verbatim>\<open>d_depthmap\<close> is \<open>None\<close> for the null pointer, and \<open>device_resets\<close>
  counts the calls of \<^verbatim>\<open>cudaDeviceReset\<close> that succeeded, to observe the resets of the
  compute context.
\<close>

record PlaneSweep =
  HostRef :: "float CamImage"
  HostSrc :: "float CamImage list"
  znear :: float
  zfar :: float
  numberplanes :: "32 word"
  numberimages :: int
  nccthresh :: float
  depthmap :: "float CamImage"
  depthmap8u :: "8 word CamImage"
  depthmapdenoised :: "float CamImage"
  depthmap8udenoised :: "8 word CamImage"
  depthmapTGV :: "float CamImage"
  depthmap8uTGV :: "8 word CamImage"
  coord_x :: "float CamImage"
  coord_y :: "float CamImage"
  coord_z :: "float CamImage"
  depthavailable :: bool
  d_depthmap :: "float list option"
  device_resets :: nat

text \<open>
  What the CUDA runtime does during one call is a parameter. \<^verbatim>\<open>cudaDevInit\<close> throws, returns
  \<^verbatim>\<open>NO_CUDA_DEVICE\<close> or returns a device. A CUDA call of the \<^verbatim>\<open>try\<close> block (an allocation,
  a copy, a kernel launch that \<^verbatim>\<open>cudaPeekAtLastError\<close> reports) may fail and throw, either
  before the first write of the block to a host image (\<open>EarlyFault\<close>) or after it
  (\<open>LateFault\<close>). \<^verbatim>\<open>cudaDeviceReset\<close> may fail and throw as well.
\<close>

datatype dev_init = DevThrows | NoDevice | Device

datatype fault = NoFault | EarlyFault | LateFault

record cuda_run =
  cudaDevInit :: dev_init
  device_fault :: fault
  reset_fault :: bool

text \<open>
  A call returns a value to its caller, or an exception escapes into the caller.
\<close>

datatype 'a outcome = Returned 'a | Escaped

text \<open>
  \<^verbatim>\<open>cudaReset\<close>: \<^verbatim>\<open>CHECK_CUDA_ERRORS_AUTO(cudaDeviceReset()); d_depthmap = 0;\<close>
\<close>

definition cudaReset :: "cuda_run \<Rightarrow> PlaneSweep \<Rightarrow> unit outcome \<times> PlaneSweep" where
  "cudaReset env st =
     (if reset_fault env then (Escaped, st)
      else (Returned (), st\<lparr>device_resets := Suc (device_resets st), d_depthmap := None\<rparr>))"

text \<open>
  The handler of every entry point:
  \<^verbatim>\<open>catch (const std::exception& e) { ...; cudaReset(); return false; }\<close>.
  The path \<^verbatim>\<open>cudaReset(); return false;\<close> taken inside the \<^verbatim>\<open>try\<close> block when there is no
  device behaves in the same way, because an exception of that \<^verbatim>\<open>cudaReset\<close> enters the
  handler, whose own \<^verbatim>\<open>cudaReset\<close> fails again.
\<close>

definition reset_and_fail :: "cuda_run \<Rightarrow> PlaneSweep \<Rightarrow> bool outcome \<times> PlaneSweep" where
  "reset_and_fail env st =
     (case cudaReset env st of
        (Escaped, st') \<Rightarrow> (Escaped, st')
      | (Returned u, st') \<Rightarrow> (Returned False, st'))"


section \<open>Plane sweep\<close>

text \<open>
  \<^verbatim>\<open>PlaneSweepThread\<close> for the source view \<open>index\<close>. The kernels that warp the source view
  and compute the windowed statistics are not part of the sources; their result, the NCC
  image of the view at depth \<open>d\<close>, is the parameter \<open>ncc index d\<close>. The loop over the
  depth hypotheses keeps the best NCC and its depth per pixel, and \<^verbatim>\<open>sum_depthmap_NCC\<close>
  folds them into the accumulators of the run. \<open>None\<close>: the depth loop runs forever.
\<close>

definition PlaneSweepThread_best ::
  "rounding \<Rightarrow> (nat \<Rightarrow> float \<Rightarrow> float list) \<Rightarrow> PlaneSweep \<Rightarrow> nat
     \<Rightarrow> (float list \<times> float list) option" where
  "PlaneSweepThread_best rnd ncc st index =
     (let w = width (HostRef st); h = height (HostRef st);
          dstep = PlaneSweepThread_dstep rnd (znear st) (zfar st) (numberplanes st)
      in depth_loop rnd (znear st) (zfar st) dstep
           (\<lambda>d acc. update_arrays w h acc (ncc index d) d)
           (Image_new w h, Image_new w h))"

definition PlaneSweepThread ::
  "rounding \<Rightarrow> (nat \<Rightarrow> float \<Rightarrow> float list) \<Rightarrow> PlaneSweep \<Rightarrow> float list \<times> float list \<Rightarrow> nat
     \<Rightarrow> (float list \<times> float list) option" where
  "PlaneSweepThread rnd ncc st glob index =
     (case PlaneSweepThread_best rnd ncc st index of
        None \<Rightarrow> None
      | Some best \<Rightarrow>
          Some (sum_depthmap_NCC rnd (width (HostRef st)) (height (HostRef st)) glob best
                  (nccthresh st)))"

text \<open>
  The device part of \<^verbatim>\<open>RunAlgorithm\<close>: the accumulators \<^verbatim>\<open>devDepthmap\<close> and \<^verbatim>\<open>devN\<close>,
  the loop over the source views, and the averaged depth map.
\<close>

definition RunAlgorithm_device ::
  "rounding \<Rightarrow> (nat \<Rightarrow> float \<Rightarrow> float list) \<Rightarrow> PlaneSweep \<Rightarrow> float list option" where
  "RunAlgorithm_device rnd ncc st =
     (let w = width (HostRef st); h = height (HostRef st);
          nimgs = RunAlgorithm_nimgs (numberimages st) (HostSrc st)
      in case for_views 0 nimgs
                (\<lambda>i glob. case glob of None \<Rightarrow> None
                          | Some g \<Rightarrow> PlaneSweepThread rnd ncc st g i)
                (Some (Image_new w h, Image_new w h)) of
           None \<Rightarrow> None
         | Some (devDepthmap, devN) \<Rightarrow>
             Some (set_QNAN_value w h (element_rdivide rnd w h devDepthmap devN) (zfar st)))"

text \<open>
  \<^verbatim>\<open>RunAlgorithm\<close>. The depth map is reset before the \<^verbatim>\<open>try\<close> block. All host images are
  written after the last CUDA call of the block, so a fault at any point leaves them as they
  are at that moment. \<open>None\<close>: the call does not return (a depth loop runs forever) or the
  conversion to 8 bits has undefined behaviour.
\<close>

definition RunAlgorithm ::
  "rounding \<Rightarrow> (nat \<Rightarrow> float \<Rightarrow> float list) \<Rightarrow> cuda_run \<Rightarrow> PlaneSweep
     \<Rightarrow> (bool outcome \<times> PlaneSweep) option" where
  "RunAlgorithm rnd ncc env st =
     (let w = width (HostRef st); h = height (HostRef st);
          st1 = st\<lparr>depthmap := CamImage_reset w h (Fin 0)\<rparr>
      in case cudaDevInit env of
           DevThrows \<Rightarrow> Some (reset_and_fail env st1)
         | NoDevice \<Rightarrow> Some (reset_and_fail env st1)
         | Device \<Rightarrow>
             if device_fault env \<noteq> NoFault then Some (reset_and_fail env st1)
             else
               (case RunAlgorithm_device rnd ncc st1 of
                  None \<Rightarrow> None
                | Some devDepthmap \<Rightarrow>
                    let st2 = st1\<lparr>depthmap := (depthmap st1)\<lparr>data := devDepthmap\<rparr>\<rparr>
                    in (case ConvertDepthtoUChar rnd (znear st2) (zfar st2) (depthmap st2) of
                          None \<Rightarrow> None
                        | Some img \<Rightarrow>
                            Some (Returned True,
                                  st2\<lparr>depthmap8u := img, depthavailable := True\<rparr>))))"


section \<open>TVL1 denoising\<close>

text \<open>
  The kernels of the denoiser are parameters: the diffusion tensor computed from the
  normalised reference image, the dual update \<^verbatim>\<open>denoising_TVL1_calculateP_tensor_weighed\<close>,
  which reads the tensor, the current depth and the dual step and updates \<^verbatim>\<open>(Px, Py)\<close>, and
  the primal update \<^verbatim>\<open>denoising_TVL1_update\<close>, which reads \<^verbatim>\<open>(Px, Py)\<close>, the scaled raw
  input and \<^verbatim>\<open>tau, theta, lambda, sigma\<close> and updates \<^verbatim>\<open>(d_depthmap, R)\<close>.
\<close>

record 't TVL1_kernels =
  Anisotropic_diffusion_tensor :: "float list \<Rightarrow> float \<Rightarrow> float \<Rightarrow> 't"
  denoising_TVL1_calculateP_tensor_weighed ::
    "'t \<Rightarrow> float list \<Rightarrow> float \<Rightarrow> float list \<times> float list \<Rightarrow> float list \<times> float list"
  denoising_TVL1_update ::
    "float list \<times> float list \<Rightarrow> float list \<Rightarrow> float \<times> float \<times> float \<times> float
       \<Rightarrow> float list \<times> float list \<Rightarrow> float list \<times> float list"

record TVL1_params =
  niters :: nat
  lambda :: float
  tau :: float
  sigma :: float
  theta :: float
  beta :: float
  gamma :: float

text \<open>
  The two kernel calls of one iteration of \<^verbatim>\<open>CudaDenoise\<close> for a given dual step
  \<^verbatim>\<open>currsigma\<close>, on the state \<^verbatim>\<open>((d_depthmap, R), (Px, Py))\<close>.
\<close>

definition TVL1_step ::
  "'t TVL1_kernels \<Rightarrow> TVL1_params \<Rightarrow> 't \<Rightarrow> float list \<Rightarrow> float
     \<Rightarrow> (float list \<times> float list) \<times> (float list \<times> float list)
     \<Rightarrow> (float list \<times> float list) \<times> (float list \<times> float list)" where
  "TVL1_step k par T rawInput currsigma s =
     (case s of (primal, dual) \<Rightarrow>
        let dual' = denoising_TVL1_calculateP_tensor_weighed k T (fst primal) currsigma dual;
            primal' = denoising_TVL1_update k dual' rawInput
                        (tau par, theta par, lambda par, sigma par) primal
        in (primal', dual'))"

text \<open>
  The loop of \<^verbatim>\<open>CudaDenoise\<close>:
  \<^verbatim>\<open>for (unsigned int i = 0; i < niters; i++) { double currsigma = i == 0 ? 1 + sigma : sigma; ... }\<close>
\<close>

definition CudaDenoise_loop ::
  "rounding \<Rightarrow> 't TVL1_kernels \<Rightarrow> TVL1_params \<Rightarrow> 't \<Rightarrow> float list
     \<Rightarrow> (float list \<times> float list) \<times> (float list \<times> float list)
     \<Rightarrow> (float list \<times> float list) \<times> (float list \<times> float list)" where
  "CudaDenoise_loop rnd k par T rawInput s =
     for_loop 0 (niters par)
       (\<lambda>i. TVL1_step k par T rawInput (if i = 0 then fadd rnd (Fin 1) (sigma par) else sigma par))
       s"

text \<open>
  The device part of \<^verbatim>\<open>CudaDenoise\<close> after the allocations: the depth map is copied to
  \<^verbatim>\<open>d_depthmap\<close> and to \<^verbatim>\<open>rawInput\<close>, both are shifted by \<^verbatim>\<open>-znear\<close> and scaled, the loop
  runs, and the result is scaled by \<^verbatim>\<open>zfar - znear\<close> and shifted by \<^verbatim>\<open>znear\<close>.
\<close>

definition CudaDenoise_device ::
  "rounding \<Rightarrow> 't TVL1_kernels \<Rightarrow> TVL1_params \<Rightarrow> PlaneSweep \<Rightarrow> float list" where
  "CudaDenoise_device rnd k par st =
     (let h = height (depthmap st); w = width (depthmap st);
          ref = element_scale rnd w h (data (HostRef st)) (fdiv rnd (Fin 1) (rnd 255));
          T = Anisotropic_diffusion_tensor k ref (beta par) (gamma par);
          d0 = element_add rnd w h (data (depthmap st)) (fneg (znear st));
          raw0 = element_add rnd w h (data (depthmap st)) (fneg (znear st));
          xscale = fdiv rnd (Fin 1) (fsub rnd (zfar st) (znear st));
          inputscale = fdiv rnd (fneg (sigma par)) (fsub rnd (zfar st) (znear st));
          d1 = element_scale rnd w h d0 xscale;
          rawInput = element_scale rnd w h raw0 inputscale;
          s = CudaDenoise_loop rnd k par T rawInput
                ((d1, Image_new w h), (Image_new w h, Image_new w h));
          d2 = element_scale rnd w h (fst (fst s)) (fsub rnd (zfar st) (znear st))
      in element_add rnd w h d2 (znear st))"

text \<open>
  \<^verbatim>\<open>CudaDenoise\<close>. Without a depth map the call returns \<^verbatim>\<open>false\<close> at once. The buffer
  \<^verbatim>\<open>d_depthmap\<close> is freed and allocated before the denoised images are reset; every later
  CUDA call comes after that reset.
\<close>

definition CudaDenoise ::
  "rounding \<Rightarrow> 't TVL1_kernels \<Rightarrow> TVL1_params \<Rightarrow> cuda_run \<Rightarrow> PlaneSweep
     \<Rightarrow> (bool outcome \<times> PlaneSweep) option" where
  "CudaDenoise rnd k par env st =
     (if depthavailable st then
        (case cudaDevInit env of
           DevThrows \<Rightarrow> Some (reset_and_fail env st)
         | NoDevice \<Rightarrow> Some (reset_and_fail env st)
         | Device \<Rightarrow>
             if device_fault env = EarlyFault then Some (reset_and_fail env st)
             else
               let h = height (depthmap st); w = width (depthmap st);
                   st1 = st\<lparr>d_depthmap := Some (Image_new w h),
                             depthmapdenoised := CamImage_reset w h (Fin 0),
                             depthmap8udenoised := CamImage_reset w h 0\<rparr>
               in if device_fault env = LateFault then Some (reset_and_fail env st1)
                  else
                    let d = CudaDenoise_device rnd k par st1;
                        st2 = st1\<lparr>d_depthmap := Some d,
                                  depthmapdenoised := (depthmapdenoised st1)\<lparr>data := d\<rparr>\<rparr>
                    in (case ConvertDepthtoUChar rnd (znear st2) (zfar st2) (depthmapdenoised st2) of
                          None \<Rightarrow> None
                        | Some img \<Rightarrow> Some (Returned True, st2\<lparr>depthmap8udenoised := img\<rparr>)))
      else Some (Returned False, st))"


section \<open>The other entry points\<close>

text \<open>
  \<^verbatim>\<open>TGV\<close>. The TGV images are reset right after \<^verbatim>\<open>cudaDevInit\<close>, before any other CUDA call
  of the block, so every fault comes after that reset. The primal-dual iterations are a
  parameter: they read the reference image and the source views that the loops
  \<^verbatim>\<open>for (int i = 0; i < nimages; i++)\<close> visit, and give the image \<^verbatim>\<open>u\<close>.
\<close>

definition TGV ::
  "rounding \<Rightarrow> (float CamImage \<Rightarrow> float CamImage list \<Rightarrow> float list) \<Rightarrow> cuda_run \<Rightarrow> PlaneSweep
     \<Rightarrow> (bool outcome \<times> PlaneSweep) option" where
  "TGV rnd solver env st =
     (case cudaDevInit env of
        DevThrows \<Rightarrow> Some (reset_and_fail env st)
      | NoDevice \<Rightarrow> Some (reset_and_fail env st)
      | Device \<Rightarrow>
          let h = height (HostRef st); w = width (HostRef st);
              st1 = st\<lparr>depthmapTGV := CamImage_reset w h (Fin 0),
                        depthmap8uTGV := CamImage_reset w h 0\<rparr>
          in if device_fault env \<noteq> NoFault then Some (reset_and_fail env st1)
             else
               let u = solver (HostRef st1) (map (\<lambda>i. HostSrc st1 ! i)
                                               (TGV_views (numberimages st1) (HostSrc st1)));
                   st2 = st1\<lparr>depthmapTGV := (depthmapTGV st1)\<lparr>data := u\<rparr>\<rparr>
               in (case ConvertDepthtoUChar rnd (znear st2) (zfar st2) (depthmapTGV st2) of
                     None \<Rightarrow> None
                   | Some img \<Rightarrow> Some (Returned True, st2\<lparr>depthmap8uTGV := img\<rparr>)))"

text \<open>
  \<^verbatim>\<open>TGVdenoiseFromSparse\<close>. Only \<^verbatim>\<open>depthmapTGV\<close> is reset after \<^verbatim>\<open>cudaDevInit\<close>; the 8-bit
  image is reset by the final conversion. The iterations are a parameter that reads the
  sparse depth and the depth map and gives the content of \<^verbatim>\<open>d_depthmap\<close>.
\<close>

definition TGVdenoiseFromSparse ::
  "rounding \<Rightarrow> (float CamImage \<Rightarrow> float CamImage \<Rightarrow> float list) \<Rightarrow> cuda_run \<Rightarrow> float CamImage
     \<Rightarrow> PlaneSweep \<Rightarrow> (bool outcome \<times> PlaneSweep) option" where
  "TGVdenoiseFromSparse rnd solver env depth st =
     (case cudaDevInit env of
        DevThrows \<Rightarrow> Some (reset_and_fail env st)
      | NoDevice \<Rightarrow> Some (reset_and_fail env st)
      | Device \<Rightarrow>
          let h = height (HostRef st); w = width (HostRef st);
              st1 = st\<lparr>depthmapTGV := CamImage_reset w h (Fin 0)\<rparr>
          in if device_fault env \<noteq> NoFault then Some (reset_and_fail env st1)
             else
               let d = solver depth (depthmap st1);
                   st2 = st1\<lparr>d_depthmap := Some d,
                             depthmapTGV := (depthmapTGV st1)\<lparr>data := d\<rparr>\<rparr>
               in (case ConvertDepthtoUChar rnd (znear st2) (zfar st2) (depthmapTGV st2) of
                     None \<Rightarrow> None
                   | Some img \<Rightarrow> Some (Returned True, st2\<lparr>depthmap8uTGV := img\<rparr>)))"

text \<open>
  \<^verbatim>\<open>Denoise\<close>, as compiled with OpenCV: there is no \<^verbatim>\<open>try\<close> block and no reset. The
  function \<^verbatim>\<open>cv::denoise_TVL1\<close> is a parameter; \<open>None\<close> is an exception that it throws.
\<close>

definition Denoise ::
  "(8 word list \<Rightarrow> 8 word list option) \<Rightarrow> PlaneSweep \<Rightarrow> bool outcome \<times> PlaneSweep" where
  "Denoise denoise_TVL1 st =
     (if depthavailable st then
        let st1 = st\<lparr>depthmap8udenoised :=
                         CamImage_reset (width (depthmap st)) (height (depthmap st)) 0\<rparr>
        in (case denoise_TVL1 (data (depthmap8u st1)) of
              None \<Rightarrow> (Escaped, st1)
            | Some out \<Rightarrow>
                (Returned True,
                 st1\<lparr>depthmap8udenoised := (depthmap8udenoised st1)\<lparr>data := out\<rparr>\<rparr>))
      else (Returned False, st))"

text \<open>
  \<^verbatim>\<open>get3Dcoordinates\<close> returns \<^verbatim>\<open>void\<close>. It does not call \<^verbatim>\<open>cudaDevInit\<close>. The kernel
  \<^verbatim>\<open>compute3D\<close> is a parameter that gives the three coordinate images; the coordinate images
  of the engine are reset after it and before the copies to the host.
\<close>

definition get3Dcoordinates ::
  "(PlaneSweep \<Rightarrow> float list \<times> float list \<times> float list) \<Rightarrow> cuda_run \<Rightarrow> PlaneSweep
     \<Rightarrow> unit outcome \<times> PlaneSweep" where
  "get3Dcoordinates compute3D env st =
     (if device_fault env = EarlyFault then cudaReset env st
      else
        let w = width (HostRef st); h = height (HostRef st);
            st1 = st\<lparr>coord_x := CamImage_reset w h (Fin 0),
                      coord_y := CamImage_reset w h (Fin 0),
                      coord_z := CamImage_reset w h (Fin 0)\<rparr>
        in if device_fault env = LateFault then cudaReset env st1
           else
             (case compute3D st of (Px, Py, X) \<Rightarrow>
                (Returned (),
                 st1\<lparr>coord_x := (coord_x st1)\<lparr>data := Px\<rparr>,
                     coord_y := (coord_y st1)\<lparr>data := Py\<rparr>,
                     coord_z := (coord_z st1)\<lparr>data := X\<rparr>\<rparr>)))"


section \<open>A small engine\<close>

text \<open>
  A concrete engine for the examples: a reference image and one source view of a single
  pixel, the depth range \<open>[1, 4]\<close> with four planes, and a raw depth map of one pixel that
  holds the single-precision number nearest to 1.84. The example kernels leave their state
  as it is, and the example run of the CUDA runtime has a device and no fault.
\<close>

definition engine_example :: PlaneSweep where
  "engine_example =
     \<lparr>HostRef = \<lparr>width = 1, height = 1, data = [Fin 100]\<rparr>,
      HostSrc = [\<lparr>width = 1, height = 1, data = [Fin 100]\<rparr>],
      znear = Fin 1, zfar = Fin 4, numberplanes = 4, numberimages = 1, nccthresh = Fin (1 / 2),
      depthmap = \<lparr>width = 1, height = 1, data = [Fin (15435039 / 8388608)]\<rparr>,
      depthmap8u = \<lparr>width = 1, height = 1, data = [71]\<rparr>,
      depthmapdenoised = \<lparr>width = 0, height = 0, data = []\<rparr>,
      depthmap8udenoised = \<lparr>width = 0, height = 0, data = []\<rparr>,
      depthmapTGV = \<lparr>width = 0, height = 0, data = []\<rparr>,
      depthmap8uTGV = \<lparr>width = 0, height = 0, data = []\<rparr>,
      coord_x = \<lparr>width = 0, height = 0, data = []\<rparr>,
      coord_y = \<lparr>width = 0, height = 0, data = []\<rparr>,
      coord_z = \<lparr>width = 0, height = 0, data = []\<rparr>,
      depthavailable = True, d_depthmap = None, device_resets = 0\<rparr>"

definition kernels_example :: "unit TVL1_kernels" where
  "kernels_example =
     \<lparr>Anisotropic_diffusion_tensor = (\<lambda>ref b g. ()),
      denoising_TVL1_calculateP_tensor_weighed = (\<lambda>T d currsigma dual. dual),
      denoising_TVL1_update = (\<lambda>dual rawInput steps primal. primal)\<rparr>"

text \<open>
  Example kernels that make the dual steps visible: the dual update adds its step
  \<^verbatim>\<open>currsigma\<close> to the first pixel of \<^verbatim>\<open>Px\<close>, and the primal update copies \<^verbatim>\<open>Px\<close> to
  \<^verbatim>\<open>d_depthmap\<close>.
\<close>

definition kernels_accumulate :: "unit TVL1_kernels" where
  "kernels_accumulate =
     \<lparr>Anisotropic_diffusion_tensor = (\<lambda>ref b g. ()),
      denoising_TVL1_calculateP_tensor_weighed =
        (\<lambda>T d currsigma dual. ([fadd exact (fst dual ! 0) currsigma], snd dual)),
      denoising_TVL1_update = (\<lambda>dual rawInput steps primal. (fst dual, snd primal))\<rparr>"

definition params_example :: TVL1_params where
  "params_example =
     \<lparr>niters = 0, lambda = Fin 1, tau = Fin (1 / 50), sigma = Fin 8, theta = Fin 1,
      beta = Fin 1, gamma = Fin 1\<rparr>"

definition cuda_ok :: cuda_run where
  "cuda_ok = \<lparr>cudaDevInit = Device, device_fault = NoFault, reset_fault = False\<rparr>"


section \<open>Votes of the source views\<close>

text \<open>
  The notions that the properties of a plane-sweep run speak about, for a pixel \<open>p\<close>: the
  source views of the run whose best NCC at \<open>p\<close> exceeds \<^verbatim>\<open>nccthresh\<close>, in the order of the
  loop; the depth at which a view found its best NCC; and the sum of a list of floats,
  added from left to right as the accumulator \<^verbatim>\<open>devDepthmap\<close> adds them.
\<close>

definition passing_views ::
  "rounding \<Rightarrow> (nat \<Rightarrow> float \<Rightarrow> float list) \<Rightarrow> PlaneSweep \<Rightarrow> nat \<Rightarrow> nat list" where
  "passing_views rnd ncc st p =
     filter (\<lambda>i. case PlaneSweepThread_best rnd ncc st i of
                    None \<Rightarrow> False
                  | Some (devDepth, devbestNCC) \<Rightarrow> flt (nccthresh st) (devbestNCC ! p))
       [0 ..< nat (RunAlgorithm_nimgs (numberimages st) (HostSrc st))]"

definition winning_depth ::
  "rounding \<Rightarrow> (nat \<Rightarrow> float \<Rightarrow> float list) \<Rightarrow> PlaneSweep \<Rightarrow> nat \<Rightarrow> nat \<Rightarrow> float" where
  "winning_depth rnd ncc st p i =
     (case PlaneSweepThread_best rnd ncc st i of
        None \<Rightarrow> QNAN
      | Some (devDepth, devbestNCC) \<Rightarrow> devDepth ! p)"

definition fsum :: "rounding \<Rightarrow> float list \<Rightarrow> float" where
  "fsum rnd xs = foldl (fadd rnd) (Fin 0) xs"

definition ncc_high :: "nat \<Rightarrow> float \<Rightarrow> float list" where
  "ncc_high i d = [Fin (3 / 4)]"

definition ncc_low :: "nat \<Rightarrow> float \<Rightarrow> float list" where
  "ncc_low i d = [Fin (1 / 4)]"


section \<open>Example runs of the entry points\<close>

text \<open>
  Two more runs of the CUDA runtime, one that finds no device and one in which a CUDA call
  fails after the first write to a host image, and example results for the kernels that
  are parameters of \<^verbatim>\<open>TGV\<close>, \<^verbatim>\<open>TGVdenoiseFromSparse\<close> and \<^verbatim>\<open>get3Dcoordinates\<close>.
\<close>

definition cuda_no_device :: cuda_run where
  "cuda_no_device = \<lparr>cudaDevInit = NoDevice, device_fault = NoFault, reset_fault = False\<rparr>"

definition cuda_late_fault :: cuda_run where
  "cuda_late_fault = \<lparr>cudaDevInit = Device, device_fault = LateFault, reset_fault = False\<rparr>"

definition solver_example :: "float CamImage \<Rightarrow> float CamImage list \<Rightarrow> float list" where
  "solver_example ref srcs = [Fin 2]"

definition sparse_solver_example :: "float CamImage \<Rightarrow> float CamImage \<Rightarrow> float list" where
  "sparse_solver_example depth raw = [Fin 2]"

definition compute3D_example :: "PlaneSweep \<Rightarrow> float list \<times> float list \<times> float list" where
  "compute3D_example st = ([Fin 0], [Fin 0], [Fin 2])"


section \<open>Properties of the view loop\<close>

lemma int_of_size_small: "n < 2 ^ 31 \<Longrightarrow> int_of_size n = int n"
proof -
  assume a: "n < 2 ^ 31"
  have b: "int n < 2 ^ 31"
    using a by (metis of_nat_less_iff of_nat_numeral of_nat_power)
  have "int n mod 2 ^ 32 = int n"
    using b by simp
  then show ?thesis
    using b by (simp add: int_of_size_def)
qed

lemma for_views_foldl:
  "0 \<le> i \<Longrightarrow> for_views i nimgs body s = foldl (\<lambda>s k. body k s) s [nat i ..< nat nimgs]"
proof (induction i nimgs body s rule: for_views.induct)
  case (1 i nimgs body s)
  show ?case
  proof (cases "i < nimgs")
    case True
    have up: "[nat i ..< nat nimgs] = nat i # [nat (i + 1) ..< nat nimgs]"
      using True "1.prems" by (simp add: upt_conv_Cons nat_add_distrib)
    have "for_views i nimgs body s = for_views (i + 1) nimgs body (body (nat i) s)"
      using True by (subst for_views.simps) simp
    also have "\<dots> = foldl (\<lambda>s k. body k s) (body (nat i) s) [nat (i + 1) ..< nat nimgs]"
      using "1.IH" [OF True] "1.prems" by simp
    finally show ?thesis
      by (simp add: up)
  next
    case False
    then have e: "[nat i ..< nat nimgs] = []"
      by simp
    have "for_views i nimgs body s = s"
      using False by (subst for_views.simps) simp
    then show ?thesis
      by (simp only: e foldl_Nil)
  qed
qed

lemma foldl_snoc_trace: "foldl (\<lambda>tr k. tr @ [k]) acc ks = acc @ ks"
  by (induction ks arbitrary: acc) simp_all

lemma views_trace: "for_views 0 nimgs (\<lambda>i tr. tr @ [i]) [] = [0 ..< nat nimgs]"
  by (simp add: for_views_foldl foldl_snoc_trace)

text \<open>
  C10 (as amended). The views used by \<^verbatim>\<open>RunAlgorithm\<close> and by \<^verbatim>\<open>TGV\<close> are the first
  \<open>min (max numberimages 1) (size of HostSrc)\<close> source views: never more than were provided,
  exactly one when \<open>numberimages \<le> 0\<close> and a view was provided, and at least one only when
  \<^verbatim>\<open>HostSrc\<close> is not empty.
\<close>

theorem views_used_count:
  fixes HostSrc :: "'a list" and numberimages :: int
  assumes "length HostSrc < 2 ^ 31"
  shows "RunAlgorithm_views numberimages HostSrc
           = [0 ..< min (nat (max numberimages 1)) (length HostSrc)]
       \<and> TGV_views numberimages HostSrc
           = [0 ..< min (nat (max numberimages 1)) (length HostSrc)]
       \<and> length (RunAlgorithm_views numberimages HostSrc) \<le> length HostSrc
       \<and> (HostSrc \<noteq> [] \<longrightarrow> 1 \<le> length (RunAlgorithm_views numberimages HostSrc))
       \<and> (HostSrc \<noteq> [] \<and> numberimages \<le> 0
            \<longrightarrow> length (RunAlgorithm_views numberimages HostSrc) = 1)"
proof -
  have sz: "int_of_size (length HostSrc) = int (length HostSrc)"
    using assms by (rule int_of_size_small)
  have k: "nat (min (max numberimages 1) (int (length HostSrc)))
             = min (nat (max numberimages 1)) (length HostSrc)"
    by (auto simp: min_def max_def)
  have r: "RunAlgorithm_views numberimages HostSrc
             = [0 ..< min (nat (max numberimages 1)) (length HostSrc)]"
    by (simp add: RunAlgorithm_views_def RunAlgorithm_nimgs_def views_trace sz k)
  have t: "TGV_views numberimages HostSrc
             = [0 ..< min (nat (max numberimages 1)) (length HostSrc)]"
    by (simp add: TGV_views_def TGV_nimages_def views_trace sz k)
  have ne: "HostSrc \<noteq> [] \<Longrightarrow> 1 \<le> length HostSrc"
    by (cases HostSrc) simp_all
  show ?thesis
    using ne by (auto simp add: r t min_def max_def)
qed

theorem views_used_count_witness:
  "length [10, 20, 30 :: nat] < 2 ^ 31
   \<and> RunAlgorithm_views 0 [10, 20, 30 :: nat] = [0 ..< 1]
   \<and> TGV_views 0 [10, 20, 30 :: nat] = [0 ..< 1]
   \<and> length (RunAlgorithm_views 0 [10, 20, 30 :: nat]) = 1"
proof -
  have h: "length [10, 20, 30 :: nat] < 2 ^ 31"
    by simp
  show ?thesis
    using h views_used_count [OF h, of 0] by simp
qed

text \<open>
  C10 as stated fails when no source view was provided: the run then uses no view at all,
  also with \<open>numberimages \<le> 0\<close>.
\<close>

theorem views_used_counterexample:
  "\<not> 1 \<le> length (RunAlgorithm_views 0 ([] :: nat list))"
  by (simp add: RunAlgorithm_views_def RunAlgorithm_nimgs_def int_of_size_def
      for_views.simps [of 0 0])


section \<open>Properties of the depth loop\<close>

lemma depth_loop_exact_from:
  fixes zn zf ds :: rat
  assumes "0 < ds" "zn + of_nat (n - 1) * ds \<le> zf" "zf < zn + of_nat n * ds" "0 < n"
  shows "j \<le> n \<Longrightarrow>
           depth_loop exact (Fin (zn + of_nat j * ds)) (Fin zf) (Fin ds) (\<lambda>d tr. tr @ [d]) acc
             = Some (acc @ map (\<lambda>k. Fin (zn + of_nat k * ds)) [j ..< n])"
proof (induction "n - j" arbitrary: j acc)
  case 0
  then have "j = n"
    by simp
  then have "\<not> fle (Fin (zn + of_nat j * ds)) (Fin zf)"
    using assms(3) by (simp add: fle_def feq_def)
  then show ?case
    using \<open>j = n\<close> by (subst depth_loop.simps) simp
next
  case (Suc m)
  then have j: "j < n"
    by simp
  then have "of_nat j * ds \<le> of_nat (n - 1) * ds"
    using assms(1) by (intro mult_right_mono) (simp_all add: less_imp_le)
  then have le: "fle (Fin (zn + of_nat j * ds)) (Fin zf)"
    using assms(2) by (auto simp: fle_def feq_def)
  have next_d: "fadd exact (Fin (zn + of_nat j * ds)) (Fin ds) = Fin (zn + of_nat (Suc j) * ds)"
    by (simp add: exact_def algebra_simps)
  have "depth_loop exact (Fin (zn + of_nat j * ds)) (Fin zf) (Fin ds) (\<lambda>d tr. tr @ [d]) acc
          = depth_loop exact (Fin (zn + of_nat (Suc j) * ds)) (Fin zf) (Fin ds) (\<lambda>d tr. tr @ [d])
              (acc @ [Fin (zn + of_nat j * ds)])"
    using le by (subst depth_loop.simps) (simp only: next_d if_True)
  also have "\<dots> = Some ((acc @ [Fin (zn + of_nat j * ds)])
                        @ map (\<lambda>k. Fin (zn + of_nat k * ds)) [Suc j ..< n])"
    using Suc.hyps(2) j by (intro Suc.hyps(1)) simp_all
  finally show ?case
    using j by (simp add: upt_conv_Cons)
qed

text \<open>
  In exact arithmetic and for \<open>znear < zfar\<close> and at least two planes, the depth loop visits
  exactly \<^verbatim>\<open>numberplanes\<close> depths, from \<open>znear\<close> in steps of \<^verbatim>\<open>dstep\<close>, and the last one is
  \<open>zfar\<close>.
\<close>

lemma depth_loop_exact:
  fixes zn zf :: rat
  assumes "zn < zf" "2 \<le> unat np"
  shows "PlaneSweepThread_depths exact (Fin zn) (Fin zf) np
           = Some (map (\<lambda>k. Fin (zn + of_nat k * ((zf - zn) / of_nat (unat np - 1))))
                     [0 ..< unat np])"
    and "zn + of_nat (unat np - 1) * ((zf - zn) / of_nat (unat np - 1)) = zf"
proof -
  define n where "n = unat np"
  define ds where "ds = (zf - zn) / of_nat (n - 1)"
  have n: "2 \<le> n"
    using assms(2) by (simp add: n_def)
  have m: "unat (np - 1) = n - 1"
    using assms(2) by (simp add: n_def unat_minus_one unat_gt_0 [symmetric] split: if_splits) 
  have pos: "(0 :: rat) < of_nat (n - 1)"
    using n by simp
  have ds: "0 < ds"
    using assms(1) pos by (simp add: ds_def)
  have last: "zn + of_nat (n - 1) * ds = zf"
    using pos by (simp add: ds_def)
  have "of_nat n * ds = of_nat (n - 1) * ds + ds"
    using n by (simp add: algebra_simps of_nat_diff)
  then have beyond: "zf < zn + of_nat n * ds"
    using last ds by simp
  have step: "PlaneSweepThread_dstep exact (Fin zn) (Fin zf) np = Fin ds"
    using pos by (simp add: PlaneSweepThread_dstep_def exact_def fsub_def m ds_def)
  have le: "zn + of_nat (n - 1) * ds \<le> zf"
    by (simp only: last order_refl)
  have n0: "0 < n" "0 \<le> n"
    using n by simp_all
  have "depth_loop exact (Fin (zn + of_nat 0 * ds)) (Fin zf) (Fin ds) (\<lambda>d tr. tr @ [d]) []
          = Some ([] @ map (\<lambda>k. Fin (zn + of_nat k * ds)) [0 ..< n])"
    by (rule depth_loop_exact_from [OF ds le beyond n0])
  then show "PlaneSweepThread_depths exact (Fin zn) (Fin zf) np
           = Some (map (\<lambda>k. Fin (zn + of_nat k * ((zf - zn) / of_nat (unat np - 1))))
                     [0 ..< unat np])"
    by (simp add: PlaneSweepThread_depths_def step ds_def n_def)
  show "zn + of_nat (unat np - 1) * ((zf - zn) / of_nat (unat np - 1)) = zf"
    using last by (simp add: ds_def n_def)
qed

text \<open>
  In single precision the loop of the range \<open>[1, 5]\<close> with 16 planes runs 15 times only.
\<close>

lemma depth_loop_sixteen_planes:
  "map_option length (PlaneSweepThread_depths binary32 (Fin 1) (Fin 5) 16) = Some 15"
  by code_simp

text \<open>
  C5. With \<^verbatim>\<open>znear = 1\<close>, \<^verbatim>\<open>zfar = 3\<close> and \<^verbatim>\<open>numberplanes = 4\<close> in single precision the
  step is the float nearest to 2/3, which lies above 2/3; the loop visits three depths only
  and the fourth value exceeds \<^verbatim>\<open>zfar\<close>, so the far plane is never swept.
\<close>

theorem depth_loop_misses_zfar:
  "PlaneSweepThread_depths binary32 (Fin 1) (Fin 3) 4
     = Some [Fin 1, Fin (6990507 / 4194304), Fin (4893355 / 2097152)]"
  by code_simp


section \<open>Properties of single-precision rounding\<close>

lemma pow2_powi: "pow2 e = 2 powi e"
  by (simp add: pow2_def power_int_def inverse_eq_divide power_one_over)

lemma pow2_pos: "0 < pow2 e"
  by (simp add: pow2_powi)

lemma pow2_mono: "e \<le> e' \<Longrightarrow> pow2 e \<le> pow2 e'"
  by (simp add: pow2_powi power_int_increasing)

lemma pow2_add: "pow2 (e + e') = pow2 e * pow2 e'"
  by (simp add: pow2_powi power_int_add)

lemma pow2_nat: "pow2 (int n) = 2 ^ n"
  by (simp add: pow2_def)

lemma ibits_bounds:
  "0 < p \<Longrightarrow> 0 < ibits p \<and> 2 ^ (nat (ibits p) - 1) \<le> p \<and> p < 2 ^ nat (ibits p)"
proof (induction p rule: ibits.induct)
  case (1 n)
  show ?case
  proof (cases "n div 2 = 0")
    case True
    then have "n = 1"
      using "1.prems" by presburger
    then show ?thesis
      by (simp add: ibits.simps [of 1] ibits.simps [of 0])
  next
    case False
    then have h: "0 < n div 2"
      using "1.prems" by presburger
    have nn: "\<not> n \<le> 0"
      using "1.prems" by simp
    define b where "b = nat (ibits (n div 2))"
    have ih: "0 < ibits (n div 2)" "2 ^ (b - 1) \<le> n div 2" "n div 2 < 2 ^ b"
      using "1.IH" [OF nn h] by (simp_all add: b_def)
    have b: "0 < b"
      using ih(1) by (simp add: b_def)
    have eq: "ibits n = 1 + ibits (n div 2)"
      using nn by (subst ibits.simps) simp
    have nb: "nat (ibits n) = Suc b"
      using ih(1) by (simp add: eq b_def nat_add_distrib)
    have "(2 :: int) ^ b = 2 * 2 ^ (b - 1)"
      using b by (cases b) simp_all
    then have lo: "2 ^ b \<le> n"
      using ih(2) by presburger
    have hi: "n < 2 ^ Suc b"
      using ih(3) by simp
    have "0 < ibits n"
      using ih(1) by (simp add: eq)
    then show ?thesis
      unfolding nb using lo hi by simp
  qed
qed

lemma ibits_rat:
  assumes "0 < p"
  shows "pow2 (ibits p - 1) \<le> of_int p" "(of_int p :: rat) < pow2 (ibits p)"
proof -
  define b where "b = nat (ibits p)"
  have h: "0 < ibits p" "2 ^ (b - 1) \<le> p" "p < 2 ^ b"
    using ibits_bounds [OF assms] by (simp_all add: b_def)
  have e: "ibits p = int b" "ibits p - 1 = int (b - 1)"
    using h(1) by (simp_all add: b_def)
  have "(of_int (2 ^ (b - 1)) :: rat) \<le> of_int p"
    using h(2) by (simp only: of_int_le_iff)
  then show "pow2 (ibits p - 1) \<le> of_int p"
    by (simp add: e(2) pow2_nat)
  have "(of_int p :: rat) < of_int (2 ^ b)"
    using h(3) by (simp only: of_int_less_iff)
  then show "(of_int p :: rat) < pow2 (ibits p)"
    by (simp add: e(1) pow2_nat)
qed

lemma ilog2_bounds:
  assumes "0 < a"
  shows "pow2 (ilog2 a) \<le> a" "a < pow2 (ilog2 a + 1)"
proof -
  obtain p q where pq: "quotient_of a = (p, q)"
    by (cases "quotient_of a")
  have q: "0 < q"
    using pq by (rule quotient_of_denom_pos)
  have a: "a = of_int p / of_int q"
    using pq by (rule quotient_of_div)
  have p: "0 < p"
    using assms q by (simp add: a zero_less_divide_iff)
  define k where "k = ibits p - ibits q"
  have lo: "pow2 (k - 1) < a"
  proof -
    have "pow2 (k - 1) * of_int q < pow2 (k - 1) * pow2 (ibits q)"
      using ibits_rat(2) [OF q] pow2_pos by (intro mult_strict_left_mono)
    also have "\<dots> = pow2 (ibits p - 1)"
      by (simp add: pow2_add [symmetric] k_def)
    also have "\<dots> \<le> of_int p"
      using ibits_rat(1) [OF p] .
    finally show ?thesis
      using q by (simp add: a pos_less_divide_eq)
  qed
  have hi: "a < pow2 (k + 1)"
  proof -
    have "of_int p < pow2 (ibits p)"
      using ibits_rat(2) [OF p] .
    also have "\<dots> = pow2 (k + 1) * pow2 (ibits q - 1)"
      by (simp add: pow2_add [symmetric] k_def)
    also have "\<dots> \<le> pow2 (k + 1) * of_int q"
      using ibits_rat(1) [OF q] pow2_pos [of "k + 1"] by (intro mult_left_mono) simp_all
    finally show ?thesis
      using q by (simp add: a pos_divide_less_eq)
  qed
  have e: "ilog2 a = (if pow2 k \<le> a then k else k - 1)"
    by (simp add: ilog2_def pq k_def Let_def)
  show "pow2 (ilog2 a) \<le> a"
    using lo by (simp add: e less_imp_le)
  show "a < pow2 (ilog2 a + 1)"
    using hi by (auto simp: e)
qed

lemma ilog2_mono:
  assumes "0 < a" "a \<le> b"
  shows "ilog2 a \<le> ilog2 b"
proof (rule ccontr)
  assume "\<not> ilog2 a \<le> ilog2 b"
  then have "ilog2 b + 1 \<le> ilog2 a"
    by simp
  then have "pow2 (ilog2 b + 1) \<le> pow2 (ilog2 a)"
    by (rule pow2_mono)
  also have "\<dots> \<le> a"
    using ilog2_bounds(1) [OF assms(1)] .
  finally show False
    using ilog2_bounds(2) [of b] assms by simp
qed

lemma round_even_bounds: "\<lfloor>q\<rfloor> \<le> round_even q" "round_even q \<le> \<lfloor>q\<rfloor> + 1"
  by (simp_all add: round_even_def Let_def)

lemma round_even_int [simp]: "round_even (of_int n) = n"
  by (simp add: round_even_def)

lemma round_even_mono:
  assumes "q \<le> q'"
  shows "round_even q \<le> round_even q'"
proof (cases "\<lfloor>q\<rfloor> = \<lfloor>q'\<rfloor>")
  case True
  have "q - of_int \<lfloor>q\<rfloor> \<le> q' - of_int \<lfloor>q'\<rfloor>"
    using assms True by simp
  then show ?thesis
    using True by (auto simp: round_even_def Let_def)
next
  case False
  then have "\<lfloor>q\<rfloor> + 1 \<le> \<lfloor>q'\<rfloor>"
    using floor_mono [OF assms] by simp
  then show ?thesis
    using round_even_bounds(2) [of q] round_even_bounds(1) [of q'] by simp
qed


lemma pow2_split:
  "pow2 (e + 1) = pow2 24 * pow2 (e - 23)" "pow2 e = pow2 23 * pow2 (e - 23)"
  using pow2_add [of 24 "e - 23"] pow2_add [of 23 "e - 23"] by (simp_all add: add.commute)

lemma round_magnitude_mono:
  assumes "0 < a" "a \<le> b"
  shows "round_magnitude a \<le> round_magnitude b"
proof -
  define ea where "ea = max (ilog2 a) (- 126)"
  define eb where "eb = max (ilog2 b) (- 126)"
  have b: "0 < b"
    using assms by simp
  have le: "ea \<le> eb"
    using ilog2_mono [OF assms] by (simp add: ea_def eb_def)
  have ma: "round_magnitude a = of_int (round_even (a / pow2 (ea - 23))) * pow2 (ea - 23)"
    and mb: "round_magnitude b = of_int (round_even (b / pow2 (eb - 23))) * pow2 (eb - 23)"
    by (simp_all add: round_magnitude_def ea_def eb_def Let_def)
  show ?thesis
  proof (cases "ea = eb")
    case True
    have "a / pow2 (eb - 23) \<le> b / pow2 (eb - 23)"
      using assms(2) pow2_pos [of "eb - 23"] by (simp add: divide_right_mono)
    then have "round_even (a / pow2 (eb - 23)) \<le> round_even (b / pow2 (eb - 23))"
      by (rule round_even_mono)
    then show ?thesis
      using pow2_pos [of "eb - 23"] by (simp add: ma mb True mult_right_mono)
  next
    case False
    then have lt: "ea + 1 \<le> eb"
      using le by simp
    have "a < pow2 (ilog2 a + 1)"
      using ilog2_bounds(2) [OF assms(1)] .
    also have "\<dots> \<le> pow2 (ea + 1)"
      by (rule pow2_mono) (simp add: ea_def)
    also have "\<dots> = pow2 24 * pow2 (ea - 23)"
      by (rule pow2_split)
    finally have "a / pow2 (ea - 23) \<le> pow2 24"
      using pow2_pos [of "ea - 23"] by (simp add: pos_divide_le_eq less_imp_le)
    also have "pow2 24 = of_int (2 ^ 24)"
      by (simp add: pow2_def)
    finally have "round_even (a / pow2 (ea - 23)) \<le> round_even (of_int (2 ^ 24))"
      by (rule round_even_mono)
    then have "(of_int (round_even (a / pow2 (ea - 23))) :: rat) \<le> of_int (2 ^ 24)"
      by (simp only: round_even_int of_int_le_iff)
    then have "round_magnitude a \<le> of_int (2 ^ 24) * pow2 (ea - 23)"
      using pow2_pos [of "ea - 23"] unfolding ma by (intro mult_right_mono) simp_all
    also have "of_int (2 ^ 24) * pow2 (ea - 23) = pow2 (ea + 1)"
    proof -
      have "pow2 (ea + 1) = pow2 24 * pow2 (ea - 23)"
        by (rule pow2_split)
      then show ?thesis
        by (simp add: pow2_def)
    qed
    finally have upper: "round_magnitude a \<le> pow2 (ea + 1)" .
    have eb: "eb = ilog2 b"
      using lt by (simp add: ea_def eb_def max_def split: if_splits)
    have "pow2 23 * pow2 (eb - 23) = pow2 eb"
      by (rule pow2_split(2) [symmetric])
    also have "\<dots> \<le> b"
      using ilog2_bounds(1) [OF b] by (simp add: eb)
    finally have "pow2 23 \<le> b / pow2 (eb - 23)"
      using pow2_pos [of "eb - 23"] by (simp add: pos_le_divide_eq)
    moreover have "pow2 23 = of_int (2 ^ 23)"
      by (simp add: pow2_def)
    ultimately have "round_even (of_int (2 ^ 23)) \<le> round_even (b / pow2 (eb - 23))"
      by (intro round_even_mono) simp
    then have "(of_int (2 ^ 23) :: rat) \<le> of_int (round_even (b / pow2 (eb - 23)))"
      by (simp only: round_even_int of_int_le_iff)
    then have "of_int (2 ^ 23) * pow2 (eb - 23) \<le> round_magnitude b"
      using pow2_pos [of "eb - 23"] unfolding mb by (intro mult_right_mono) simp_all
    moreover have "of_int (2 ^ 23) * pow2 (eb - 23) = pow2 eb"
    proof -
      have "pow2 eb = pow2 23 * pow2 (eb - 23)"
        by (rule pow2_split)
      then show ?thesis
        by (simp add: pow2_def)
    qed
    ultimately have lower: "pow2 eb \<le> round_magnitude b"
      by simp
    have "pow2 (ea + 1) \<le> pow2 eb"
      using lt by (rule pow2_mono)
    then show ?thesis
      using upper lower by simp
  qed
qed

lemma round_magnitude_nonneg:
  assumes "0 < a"
  shows "0 \<le> round_magnitude a"
proof -
  define u where "u = pow2 (max (ilog2 a) (- 126) - 23)"
  have u: "0 < u"
    by (simp add: u_def pow2_pos)
  have "0 \<le> a / u"
    using assms u by simp
  then have f: "0 \<le> \<lfloor>a / u\<rfloor>"
    by simp
  have "0 \<le> round_even (a / u)"
    by (rule order_trans [OF f round_even_bounds(1)])
  then show ?thesis
    using u by (simp add: round_magnitude_def Let_def u_def [symmetric])
qed

lemma binary32_pos:
  "0 < x \<Longrightarrow> binary32 x
      = (if pow2 128 \<le> round_magnitude x then PInf else Fin (round_magnitude x))"
  by (simp add: binary32_def Let_def)

lemma binary32_neg:
  "x < 0 \<Longrightarrow> binary32 x
      = (if pow2 128 \<le> round_magnitude (- x) then NInf else Fin (- round_magnitude (- x)))"
  by (simp add: binary32_def Let_def)

text \<open>Single-precision rounding is monotone.\<close>

lemma monotone_binary32: "monotone_rounding binary32"
  unfolding monotone_rounding_def
proof (intro allI impI)
  fix x y :: rat
  assume xy: "x \<le> y"
  consider "x = 0" "y = 0" | "x = 0" "0 < y" | "0 < x" | "x < 0" "y < 0" | "x < 0" "y = 0"
    | "x < 0" "0 < y"
    using xy by fastforce
  then show "fle (binary32 x) (binary32 y)"
  proof cases
    case 1
    then show ?thesis
      by (simp add: binary32_def fle_def feq_def)
  next
    case 2
    then show ?thesis
      using round_magnitude_nonneg [of y]
      by (auto simp: binary32_pos binary32_def [of 0] fle_def feq_def)
  next
    case 3
    then have y: "0 < y"
      using xy by simp
    show ?thesis
      using round_magnitude_mono [OF 3 xy] 3 y
      by (auto simp: binary32_pos fle_def feq_def)
  next
    case 4
    have "round_magnitude (- y) \<le> round_magnitude (- x)"
      using 4 xy by (intro round_magnitude_mono) simp_all
    then show ?thesis
      using 4 by (auto simp: binary32_neg fle_def feq_def)
  next
    case 5
    then show ?thesis
      using round_magnitude_nonneg [of "- x"]
      by (auto simp: binary32_neg binary32_def [of 0] fle_def feq_def)
  next
    case 6
    then show ?thesis
      using round_magnitude_nonneg [of "- x"] round_magnitude_nonneg [of y]
      by (auto simp: binary32_neg binary32_pos fle_def feq_def)
  qed
qed


section \<open>Properties of the quantization\<close>

lemma fle_Fin_right: "fle a (Fin c) \<longleftrightarrow> a = NInf \<or> (\<exists>x. a = Fin x \<and> x \<le> c)"
  by (cases a) (auto simp: fle_def feq_def)

lemma fle_Fin_left: "fle (Fin c) a \<longleftrightarrow> a = PInf \<or> (\<exists>x. a = Fin x \<and> c \<le> x)"
  by (cases a) (auto simp: fle_def feq_def)

lemma monotone_not_nan: "monotone_rounding rnd \<Longrightarrow> rnd x \<noteq> QNAN"
proof
  assume m: "monotone_rounding rnd" and q: "rnd x = QNAN"
  have "fle (rnd x) (rnd x)" using m by (simp add: monotone_rounding_def)
  then show False using q by (simp add: fle_def feq_def)
qed

lemma clamp_low: "fle q (Fin 0) \<Longrightarrow> fmin_std (fmax_std q (Fin 0)) (Fin 1) = Fin 0"
  by (auto simp: fle_Fin_right fmin_std_def fmax_std_def)

lemma clamp_high: "fle (Fin 1) q \<Longrightarrow> fmin_std (fmax_std q (Fin 0)) (Fin 1) = Fin 1"
  by (auto simp: fle_Fin_left fmin_std_def fmax_std_def)

lemma clamp_unit: "q \<noteq> QNAN \<Longrightarrow> \<exists>c. fmin_std (fmax_std q (Fin 0)) (Fin 1) = Fin c \<and> 0 \<le> c \<and> c \<le> 1"
  by (cases q) (auto simp: fmin_std_def fmax_std_def)


lemma quotient_not_nan:
  assumes m: "monotone_rounding rnd" and v: "v \<noteq> QNAN" and s: "0 < s"
  shows "fdiv rnd (fsub rnd v (Fin zn)) (Fin s) \<noteq> QNAN"
proof (cases v)
  case (Fin d)
  show ?thesis
  proof (cases "rnd (d - zn)")
    case (Fin x)
    then show ?thesis
      using s monotone_not_nan [OF m] \<open>v = Fin d\<close> by (simp add: fsub_def)
  qed (use s monotone_not_nan [OF m] \<open>v = Fin d\<close> in \<open>simp_all add: fsub_def signed_inf_def\<close>)
qed (use v s in \<open>simp_all add: fsub_def signed_inf_def\<close>)

lemma quotient_low:
  assumes m: "monotone_rounding rnd" and z: "rnd 0 = Fin 0" and s: "0 < s" and d: "d \<le> zn"
  shows "fle (fdiv rnd (fsub rnd (Fin d) (Fin zn)) (Fin s)) (Fin 0)"
proof -
  have "fle (rnd (d - zn)) (rnd 0)"
    using m d by (simp add: monotone_rounding_def)
  then consider "rnd (d - zn) = NInf" | x where "rnd (d - zn) = Fin x" "x \<le> 0"
    by (auto simp: z fle_Fin_right)
  then show ?thesis
  proof cases
    case 1
    then show ?thesis
      using s by (simp add: fsub_def signed_inf_def fle_def)
  next
    case 2
    have "x / s \<le> 0"
      using 2 s by (simp add: divide_le_0_iff)
    then have "fle (rnd (x / s)) (rnd 0)"
      using m by (simp add: monotone_rounding_def)
    then show ?thesis
      using 2 s by (simp add: fsub_def z)
  qed
qed

lemma quotient_high:
  assumes m: "monotone_rounding rnd" and o: "rnd 1 = Fin 1" and s: "0 < s"
    and w: "rnd (zf - zn) = Fin s" and d: "zf \<le> d"
  shows "fle (Fin 1) (fdiv rnd (fsub rnd (Fin d) (Fin zn)) (Fin s))"
proof -
  have "fle (rnd (zf - zn)) (rnd (d - zn))"
    using m d by (simp add: monotone_rounding_def)
  then consider "rnd (d - zn) = PInf" | x where "rnd (d - zn) = Fin x" "s \<le> x"
    by (auto simp: w fle_Fin_left)
  then show ?thesis
  proof cases
    case 1
    then show ?thesis
      using s by (simp add: fsub_def signed_inf_def fle_def)
  next
    case 2
    have "1 \<le> x / s"
      using 2 s by simp
    then have "fle (rnd 1) (rnd (x / s))"
      using m by (simp add: monotone_rounding_def)
    then show ?thesis
      using 2 s by (simp add: fsub_def o)
  qed
qed

lemma scale_unit:
  assumes m: "monotone_rounding rnd" and z: "rnd 0 = Fin 0" and f: "rnd 255 = Fin 255"
    and c: "0 \<le> c" "c \<le> 1"
  shows "\<exists>u. uchar_cast (fmul rnd (rnd 255) (Fin c)) = Some u"
proof -
  have "fle (rnd 0) (rnd (255 * c))" "fle (rnd (255 * c)) (rnd 255)"
    using m c by (simp_all add: monotone_rounding_def)
  then obtain y where "rnd (255 * c) = Fin y" "0 \<le> y" "y \<le> 255"
    by (auto simp: z f fle_Fin_right fle_Fin_left)
  then show ?thesis
    by (simp add: f uchar_cast_def)
qed

lemma pixel_undefined: "ConvertDepthtoUChar_pixel rnd zn zf QNAN = Some 255"
  by (simp add: ConvertDepthtoUChar_pixel_def feq_def)

lemma pixel_low:
  assumes "monotone_rounding rnd" "rnd 0 = Fin 0" "rnd 255 = Fin 255"
    "rnd (zf - zn) = Fin s" "0 < s" "d \<le> zn"
  shows "ConvertDepthtoUChar_pixel rnd (Fin zn) (Fin zf) (Fin d) = Some 0"
proof -
  have w: "fsub rnd (Fin zf) (Fin zn) = Fin s"
    using assms by (simp add: fsub_def)
  have "fle (fdiv rnd (fsub rnd (Fin d) (Fin zn)) (Fin s)) (Fin 0)"
    using assms by (intro quotient_low) simp_all
  then have "fmin_std (fmax_std (fdiv rnd (fsub rnd (Fin d) (Fin zn)) (Fin s)) (Fin 0)) (Fin 1) = Fin 0"
    by (rule clamp_low)
  then show ?thesis
    using assms by (simp add: ConvertDepthtoUChar_pixel_def feq_def w uchar_cast_def)
qed

lemma pixel_high:
  assumes "monotone_rounding rnd" "rnd 1 = Fin 1" "rnd 255 = Fin 255"
    "rnd (zf - zn) = Fin s" "0 < s" "zf \<le> d"
  shows "ConvertDepthtoUChar_pixel rnd (Fin zn) (Fin zf) (Fin d) = Some 255"
proof -
  have w: "fsub rnd (Fin zf) (Fin zn) = Fin s"
    using assms by (simp add: fsub_def)
  have "fle (Fin 1) (fdiv rnd (fsub rnd (Fin d) (Fin zn)) (Fin s))"
    using assms by (intro quotient_high) simp_all
  then have "fmin_std (fmax_std (fdiv rnd (fsub rnd (Fin d) (Fin zn)) (Fin s)) (Fin 0)) (Fin 1) = Fin 1"
    by (rule clamp_high)
  then show ?thesis
    using assms by (simp add: ConvertDepthtoUChar_pixel_def feq_def w uchar_cast_def)
qed

lemma pixel_defined:
  assumes "monotone_rounding rnd" "rnd 0 = Fin 0" "rnd 255 = Fin 255"
    "rnd (zf - zn) = Fin s" "0 < s"
  shows "\<exists>u. ConvertDepthtoUChar_pixel rnd (Fin zn) (Fin zf) v = Some u"
proof (cases "v = QNAN")
  case True
  then show ?thesis by (simp add: pixel_undefined)
next
  case False
  have w: "fsub rnd (Fin zf) (Fin zn) = Fin s"
    using assms by (simp add: fsub_def)
  have "fdiv rnd (fsub rnd v (Fin zn)) (Fin s) \<noteq> QNAN"
    using assms False by (intro quotient_not_nan) simp_all
  then obtain c where c: "fmin_std (fmax_std (fdiv rnd (fsub rnd v (Fin zn)) (Fin s)) (Fin 0)) (Fin 1) = Fin c"
     "0 \<le> c" "c \<le> 1"
    using clamp_unit by blast
  show ?thesis
    using scale_unit [OF assms(1,2,3) c(2,3)] False
    by (simp add: ConvertDepthtoUChar_pixel_def feq_def w c(1))
qed


lemma for_loop_invariant:
  "P i s \<Longrightarrow> i \<le> n \<Longrightarrow> (\<forall>k t. i \<le> k \<and> k < n \<and> P k t \<longrightarrow> P (Suc k) (body k t))
     \<Longrightarrow> P n (for_loop i n body s)"
proof (induction i n body s rule: for_loop.induct)
  case (1 i n body s)
  show ?case
  proof (cases "i < n")
    case True
    have step: "P (Suc i) (body i s)"
      using "1.prems" True by simp
    have "P n (for_loop (Suc i) n body (body i s))"
      using "1.IH" [OF True step] True "1.prems"(3) by simp
    then show ?thesis
      using True by (subst for_loop.simps) simp
  next
    case False
    then have "i = n"
      using "1.prems"(2) by simp
    then show ?thesis
      using "1.prems"(1) by (subst for_loop.simps) simp
  qed
qed

lemma index_decompose:
  fixes w :: nat
  assumes "x < w" "y < h"
  shows "x + y * w < w * h" "(x + y * w) mod w = x" "(x + y * w) div w = y"
proof -
  have "x + y * w < w + y * w"
    using assms by simp
  also have "\<dots> = w * Suc y"
    by simp
  also have "\<dots> \<le> w * h"
    using assms by (intro mult_le_mono2) simp
  finally show "x + y * w < w * h" .
  show "(x + y * w) mod w = x" "(x + y * w) div w = y"
    using assms by simp_all
qed

lemma ConvertDepthtoUChar_pointwise:
  assumes len: "length (data input) = width input * height input"
    and small: "width input * height input < 2 ^ 31"
    and px: "\<forall>j < width input * height input.
               ConvertDepthtoUChar_pixel rnd zn zf (data input ! j) = Some (g j)"
  shows "\<exists>out. ConvertDepthtoUChar rnd zn zf input = Some out
           \<and> width out = width input \<and> height out = height input
           \<and> length (data out) = width input * height input
           \<and> (\<forall>j < width input * height input. data out ! j = g j)"
proof -
  define w where "w = width input"
  define h where "h = height input"
  define inner where "inner = (\<lambda>x y (out :: 8 word list option).
      let i = nat (int_of_size (x + y * w))
      in case out of None \<Rightarrow> None
         | Some buf \<Rightarrow>
             (case ConvertDepthtoUChar_pixel rnd zn zf (data input ! i) of
                None \<Rightarrow> None
              | Some v \<Rightarrow> Some (buf[i := v])))"
  define I where "I = (\<lambda>x y (s :: 8 word list option).
      \<exists>buf. s = Some buf \<and> length buf = w * h
        \<and> (\<forall>j < w * h. j mod w < x \<or> (j mod w = x \<and> j div w < y) \<longrightarrow> buf ! j = g j))"
  have inner_step: "I x (Suc y) (inner x y s)" if xw: "x < w" and yh: "y < h" and inv: "I x y s" for x y s
  proof -
    obtain buf where buf: "s = Some buf" "length buf = w * h"
      "\<forall>j < w * h. j mod w < x \<or> (j mod w = x \<and> j div w < y) \<longrightarrow> buf ! j = g j"
      using inv unfolding I_def by blast
    have i: "x + y * w < w * h" "(x + y * w) mod w = x" "(x + y * w) div w = y"
      using index_decompose [OF xw yh] by simp_all
    have "x + y * w < 2 ^ 31"
      using i(1) small by (simp add: w_def h_def)
    then have "int_of_size (x + y * w) = int (x + y * w)"
      by (rule int_of_size_small)
    then have cast: "nat (int_of_size (x + y * w)) = x + y * w"
      by (simp only: nat_int)
    have p: "ConvertDepthtoUChar_pixel rnd zn zf (data input ! (x + y * w)) = Some (g (x + y * w))"
      using px i(1) by (simp add: w_def h_def)
    have r: "inner x y s = Some (buf[x + y * w := g (x + y * w)])"
      by (simp add: inner_def buf(1) cast p Let_def)
    have "(buf[x + y * w := g (x + y * w)]) ! j = g j"
      if j: "j < w * h" "j mod w < x \<or> (j mod w = x \<and> j div w < Suc y)" for j
    proof (cases "j = x + y * w")
      case True
      then show ?thesis
        using i(1) buf(2) by simp
    next
      case False
      have "j mod w < x \<or> (j mod w = x \<and> j div w < y)"
      proof (rule ccontr)
        assume n: "\<not> (j mod w < x \<or> (j mod w = x \<and> j div w < y))"
        then have "j mod w = x" "j div w = y"
          using j(2) by auto
        then have "j = x + y * w"
          using div_mult_mod_eq [of j w] by simp
        then show False
          using False by simp
      qed
      then have "buf ! j = g j"
        using buf(3) j(1) by blast
      then show ?thesis
        using False by simp
    qed
    then show ?thesis
      unfolding I_def using r buf(2) by simp
  qed
  have inner_loop: "I (Suc x) 0 (for_loop 0 h (inner x) s)" if "x < w" "I x 0 s" for x s
  proof -
    have "I x h (for_loop 0 h (inner x) s)"
      using that inner_step by (intro for_loop_invariant [where P = "I x"]) simp_all
    then obtain buf where buf: "for_loop 0 h (inner x) s = Some buf" "length buf = w * h"
      "\<forall>j < w * h. j mod w < x \<or> (j mod w = x \<and> j div w < h) \<longrightarrow> buf ! j = g j"
      unfolding I_def by blast
    have "buf ! j = g j" if j: "j < w * h" "j mod w < Suc x" for j
    proof -
      have "j div w < h"
        using j(1) by (simp add: less_mult_imp_div_less mult.commute)
      then show ?thesis
        using buf(3) j by auto
    qed
    then show ?thesis
      unfolding I_def using buf(1,2) by simp
  qed
  have start: "I 0 0 (Some (replicate (w * h) 0))"
    unfolding I_def by simp
  have "I w 0 (for_loop 0 w (\<lambda>x. for_loop 0 h (inner x)) (Some (replicate (w * h) 0)))"
    using start inner_loop by (intro for_loop_invariant [where P = "\<lambda>x. I x 0"]) simp_all
  then obtain buf where buf: "for_loop 0 w (\<lambda>x. for_loop 0 h (inner x)) (Some (replicate (w * h) 0)) = Some buf"
    "length buf = w * h" "\<forall>j < w * h. j mod w < w \<or> (j mod w = w \<and> j div w < 0) \<longrightarrow> buf ! j = g j"
    unfolding I_def by blast
  have all: "buf ! j = g j" if "j < w * h" for j
  proof -
    have "0 < w"
      using that by (cases w) simp_all
    then show ?thesis
      using buf(3) that by simp
  qed
  have "ConvertDepthtoUChar rnd zn zf input = Some \<lparr>width = w, height = h, data = buf\<rparr>"
    using buf(1)
    by (simp add: ConvertDepthtoUChar_def CamImage_reset_def Let_def inner_def w_def h_def)
  then show ?thesis
    using buf(2) all by (simp add: w_def h_def)
qed


lemma monotone_exact: "monotone_rounding exact"
  by (auto simp add: monotone_rounding_def exact_def fle_def feq_def)

text \<open>
  C4. For a monotone rounding function that represents 0, 1 and 255 exactly, and a depth
  range \<open>znear < zfar\<close> whose computed width \<open>zfar - znear\<close> is finite and positive,
  \<^verbatim>\<open>ConvertDepthtoUChar\<close> is defined on every well-formed image and maps an undefined (NaN)
  pixel to 255, a pixel at \<open>znear\<close> to 0, a pixel at \<open>zfar\<close> to 255, every depth below
  \<open>znear\<close> to 0 and every depth above \<open>zfar\<close> to 255.
\<close>

theorem ConvertDepthtoUChar_quantization:
  assumes rnd: "monotone_rounding rnd" "rnd 0 = Fin 0" "rnd 1 = Fin 1" "rnd 255 = Fin 255"
    and range: "zn < zf" "rnd (zf - zn) = Fin s" "0 < s"
    and wf: "length (data input) = width input * height input"
      "width input * height input < 2 ^ 31"
  shows "\<exists>out. ConvertDepthtoUChar rnd (Fin zn) (Fin zf) input = Some out
           \<and> width out = width input \<and> height out = height input
           \<and> length (data out) = width input * height input
           \<and> (\<forall>j < width input * height input.
                 (data input ! j = QNAN \<longrightarrow> data out ! j = 255)
               \<and> (data input ! j = Fin zn \<longrightarrow> data out ! j = 0)
               \<and> (data input ! j = Fin zf \<longrightarrow> data out ! j = 255)
               \<and> (\<forall>d. data input ! j = Fin d \<and> d < zn \<longrightarrow> data out ! j = 0)
               \<and> (\<forall>d. data input ! j = Fin d \<and> zf < d \<longrightarrow> data out ! j = 255))"
proof -
  define g where "g = (\<lambda>j. the (ConvertDepthtoUChar_pixel rnd (Fin zn) (Fin zf) (data input ! j)))"
  have px: "ConvertDepthtoUChar_pixel rnd (Fin zn) (Fin zf) v
              = Some (the (ConvertDepthtoUChar_pixel rnd (Fin zn) (Fin zf) v))" for v
    using pixel_defined [OF rnd(1,2,4) range(2,3), of v] by auto
  have "\<forall>j < width input * height input.
          ConvertDepthtoUChar_pixel rnd (Fin zn) (Fin zf) (data input ! j) = Some (g j)"
    using px by (simp add: g_def)
  then obtain out where out: "ConvertDepthtoUChar rnd (Fin zn) (Fin zf) input = Some out"
    "width out = width input" "height out = height input"
    "length (data out) = width input * height input"
    "\<forall>j < width input * height input. data out ! j = g j"
    using ConvertDepthtoUChar_pointwise [OF wf] by blast
  have low: "ConvertDepthtoUChar_pixel rnd (Fin zn) (Fin zf) (Fin d) = Some 0"
    if "d \<le> zn" for d
    using pixel_low [OF rnd(1,2,4) range(2,3) that] .
  have high: "ConvertDepthtoUChar_pixel rnd (Fin zn) (Fin zf) (Fin d) = Some 255"
    if "zf \<le> d" for d
    using pixel_high [OF rnd(1,3,4) range(2,3) that] .
  have "(data input ! j = QNAN \<longrightarrow> g j = 255)
      \<and> (data input ! j = Fin zn \<longrightarrow> g j = 0)
      \<and> (data input ! j = Fin zf \<longrightarrow> g j = 255)
      \<and> (\<forall>d. data input ! j = Fin d \<and> d < zn \<longrightarrow> g j = 0)
      \<and> (\<forall>d. data input ! j = Fin d \<and> zf < d \<longrightarrow> g j = 255)" for j
    using low high by (auto simp: g_def pixel_undefined)
  then show ?thesis
    using out by auto
qed

theorem ConvertDepthtoUChar_quantization_witness:
  "monotone_rounding binary32
   \<and> binary32 0 = Fin 0 \<and> binary32 1 = Fin 1 \<and> binary32 255 = Fin 255
   \<and> (1 :: rat) < 5 \<and> binary32 (5 - 1) = Fin 4 \<and> (0 :: rat) < 4
   \<and> (\<exists>out. ConvertDepthtoUChar binary32 (Fin 1) (Fin 5)
               \<lparr>width = 2, height = 2, data = [QNAN, Fin 1, Fin 5, Fin 7]\<rparr> = Some out
          \<and> data out ! 0 = 255 \<and> data out ! 1 = 0 \<and> data out ! 2 = 255 \<and> data out ! 3 = 255)"
proof -
  let ?img = "\<lparr>width = 2, height = 2, data = [QNAN, Fin 1, Fin 5, Fin 7]\<rparr>"
  have r: "binary32 0 = Fin 0" "binary32 1 = Fin 1" "binary32 255 = Fin 255"
    by code_simp+
  have s: "(1 :: rat) < 5" "binary32 (5 - 1) = Fin 4" "(0 :: rat) < 4"
    by simp code_simp+
  have wf: "length (data ?img) = width ?img * height ?img" "width ?img * height ?img < 2 ^ 31"
    by simp_all
  obtain out where out: "ConvertDepthtoUChar binary32 (Fin 1) (Fin 5) ?img = Some out"
    "\<forall>j < width ?img * height ?img.
        (data ?img ! j = QNAN \<longrightarrow> data out ! j = 255)
      \<and> (data ?img ! j = Fin 1 \<longrightarrow> data out ! j = 0)
      \<and> (data ?img ! j = Fin 5 \<longrightarrow> data out ! j = 255)
      \<and> (\<forall>d. data ?img ! j = Fin d \<and> d < 1 \<longrightarrow> data out ! j = 0)
      \<and> (\<forall>d. data ?img ! j = Fin d \<and> 5 < d \<longrightarrow> data out ! j = 255)"
    using ConvertDepthtoUChar_quantization [OF monotone_binary32 r s wf] by blast
  have "data out ! 0 = 255" "data out ! 1 = 0" "data out ! 2 = 255" "data out ! 3 = 255"
    using out(2) [rule_format, of 0] out(2) [rule_format, of 1]
      out(2) [rule_format, of 2] out(2) [rule_format, of 3] by simp_all
  then show ?thesis
    using monotone_binary32 r s out(1) by blast
qed


section \<open>Properties of the relative pose\<close>

lemma adjugate_mul: "mat_mul (adjugate A) A = mat_scale (mat_det A) mat_identity"
  by (cases A) (simp add: mat_identity_def algebra_simps)

lemma det_mul: "mat_det (mat_mul A B) = mat_det A * mat_det B"
  by (cases A; cases B) (simp add: algebra_simps)

lemma mat_mul_assoc: "mat_mul (mat_mul A B) C = mat_mul A (mat_mul B C)"
  by (cases A; cases B; cases C) (simp add: algebra_simps)

lemma mat_scale_mul: "mat_mul (mat_scale k A) B = mat_scale k (mat_mul A B)"
  by (cases A; cases B) (simp add: algebra_simps)

lemma mat_mul_identity [simp]: "mat_mul mat_identity B = B" "mat_mul B mat_identity = B"
  by (cases B; simp add: mat_identity_def)+

lemma mat_scale_scale: "mat_scale k (mat_scale l A) = mat_scale (k * l) A"
  by (cases A) (simp add: algebra_simps)

lemma mat_scale_one [simp]: "mat_scale 1 A = A"
  by (cases A) simp

lemma det_identity [simp]: "mat_det mat_identity = 1"
  by (simp add: mat_identity_def)

lemma mat_inv_unique:
  assumes "mat_mul A B = mat_identity"
  shows "mat_inv A = Some B"
proof -
  have "mat_det A * mat_det B = 1"
    using det_mul [of A B] assms by simp
  then have nz: "mat_det A \<noteq> 0"
    by auto
  have "adjugate A = mat_mul (adjugate A) (mat_mul A B)"
    using assms by simp
  also have "\<dots> = mat_mul (mat_mul (adjugate A) A) B"
    by (simp add: mat_mul_assoc)
  also have "\<dots> = mat_scale (mat_det A) B"
    by (simp add: adjugate_mul mat_scale_mul)
  finally have "mat_scale (1 / mat_det A) (adjugate A) = B"
    using nz by (simp add: mat_scale_scale)
  then show ?thesis
    using nz by (simp add: mat_inv_def)
qed

lemma trans_trans [simp]: "mat_trans (mat_trans A) = A"
  by (cases A) simp

lemma mat_vec_mul: "mat_vec (mat_mul A B) v = mat_vec A (mat_vec B v)"
  by (cases A; cases B; cases v) (simp add: algebra_simps)

lemma mat_vec_identity [simp]: "mat_vec mat_identity v = v"
  by (cases v) (simp add: mat_identity_def)

lemma mat_vec_neg: "mat_vec A (vec_neg v) = vec_neg (mat_vec A v)"
  by (cases A; cases v) (simp add: algebra_simps)

lemma mat_vec_sub: "mat_vec A (vec_sub u v) = vec_sub (mat_vec A u) (mat_vec A v)"
  by (cases A; cases u; cases v) (simp add: algebra_simps)

lemma vec_sub_neg: "vec_sub (vec_neg u) (vec_neg v) = vec_sub v u"
  by (cases u; cases v) simp


text \<open>
  C2 (as amended). For an orthonormal reference rotation the standard derivation gives
  \<open>Rrel = Rsrc * Rref\<^sup>T\<close> and \<open>trel = tsrc - Rrel * tref\<close>, and the alternative derivation is
  the standard one applied to the inverted poses \<open>(R\<^sup>T, - R\<^sup>T * t)\<close> of both views.
\<close>

theorem RelativeMatrices_alternative:
  assumes "orthonormal Rref"
  shows "RelativeMatrices False Rref tref Rsrc tsrc
           = Some (mat_mul Rsrc (mat_trans Rref),
                   vec_sub tsrc (mat_vec (mat_mul Rsrc (mat_trans Rref)) tref))
       \<and> RelativeMatrices True Rref tref Rsrc tsrc
           = RelativeMatrices False
               (mat_trans Rref) (vec_neg (mat_vec (mat_trans Rref) tref))
               (mat_trans Rsrc) (vec_neg (mat_vec (mat_trans Rsrc) tsrc))"
proof -
  have o: "mat_mul Rref (mat_trans Rref) = mat_identity" "mat_mul (mat_trans Rref) Rref = mat_identity"
    using assms by (simp_all add: orthonormal_def)
  have i1: "mat_inv Rref = Some (mat_trans Rref)"
    using o(1) by (rule mat_inv_unique)
  have i2: "mat_inv (mat_trans Rref) = Some Rref"
    using o(2) by (rule mat_inv_unique)
  have "mat_vec (mat_mul (mat_trans Rsrc) Rref) (vec_neg (mat_vec (mat_trans Rref) tref))
          = vec_neg (mat_vec (mat_trans Rsrc) (mat_vec (mat_mul Rref (mat_trans Rref)) tref))"
    by (simp only: mat_vec_mul mat_vec_neg)
  also have "\<dots> = vec_neg (mat_vec (mat_trans Rsrc) tref)"
    by (simp add: o(1))
  finally have t: "vec_sub (vec_neg (mat_vec (mat_trans Rsrc) tsrc))
                     (mat_vec (mat_mul (mat_trans Rsrc) Rref) (vec_neg (mat_vec (mat_trans Rref) tref)))
                   = mat_vec (mat_trans Rsrc) (vec_sub tref tsrc)"
    by (simp add: vec_sub_neg mat_vec_sub)
  show ?thesis
    by (simp add: RelativeMatrices_def Let_def i1 i2 t)
qed

theorem RelativeMatrices_alternative_witness:
  "orthonormal (Matrix3D 0 (- 1) 0  1 0 0  0 0 1)
   \<and> RelativeMatrices False (Matrix3D 0 (- 1) 0  1 0 0  0 0 1) (Vector3D 1 2 3)
         (Matrix3D 1 0 0  0 1 0  0 0 1) (Vector3D 0 0 0)
       = Some (Matrix3D 0 1 0  (- 1) 0 0  0 0 1, Vector3D (- 2) 1 (- 3))
   \<and> RelativeMatrices True (Matrix3D 0 (- 1) 0  1 0 0  0 0 1) (Vector3D 1 2 3)
         (Matrix3D 1 0 0  0 1 0  0 0 1) (Vector3D 0 0 0)
       = Some (Matrix3D 0 (- 1) 0  1 0 0  0 0 1, Vector3D 1 2 3)"
proof -
  have h: "orthonormal (Matrix3D 0 (- 1) 0  1 0 0  0 0 1)"
    by (simp add: orthonormal_def mat_identity_def)
  show ?thesis
    using h RelativeMatrices_alternative [OF h, of "Vector3D 1 2 3"
        "Matrix3D 1 0 0  0 1 0  0 0 1" "Vector3D 0 0 0"]
    by (simp add: RelativeMatrices_def Let_def)
qed

text \<open>
  C2 as stated fails: with the identity as reference rotation and a quarter turn about the
  optical axis as source rotation (both orthonormal) and no translation, the standard
  derivation returns the quarter turn and the alternative one its transpose.
\<close>

theorem RelativeMatrices_counterexample:
  "orthonormal (Matrix3D 1 0 0  0 1 0  0 0 1)
   \<and> orthonormal (Matrix3D 0 (- 1) 0  1 0 0  0 0 1)
   \<and> RelativeMatrices False (Matrix3D 1 0 0  0 1 0  0 0 1) (Vector3D 0 0 0)
         (Matrix3D 0 (- 1) 0  1 0 0  0 0 1) (Vector3D 0 0 0)
     \<noteq> RelativeMatrices True (Matrix3D 1 0 0  0 1 0  0 0 1) (Vector3D 0 0 0)
         (Matrix3D 0 (- 1) 0  1 0 0  0 0 1) (Vector3D 0 0 0)"
  by (simp add: orthonormal_def mat_identity_def RelativeMatrices_def Let_def mat_inv_def)


section \<open>Properties of the TVL1 denoiser\<close>

lemma for_loop_foldl: "for_loop i n body s = foldl (\<lambda>s k. body k s) s [i ..< n]"
proof (induction i n body s rule: for_loop.induct)
  case (1 i n body s)
  show ?case
  proof (cases "i < n")
    case True
    have "for_loop i n body s = for_loop (Suc i) n body (body i s)"
      using True by (subst for_loop.simps) simp
    also have "\<dots> = foldl (\<lambda>s k. body k s) (body i s) [Suc i ..< n]"
      using "1.IH" [OF True] .
    finally show ?thesis
      using True by (simp add: upt_conv_Cons)
  next
    case False
    then show ?thesis
      by (subst for_loop.simps) simp
  qed
qed

lemma foldl_map_arg: "foldl (\<lambda>s i. f (g i) s) s is = foldl (\<lambda>s c. f c s) s (map g is)"
  by (induction "is" arbitrary: s) simp_all

lemma first_then_rest:
  "map (\<lambda>i. if i = 0 then a else b) [0 ..< n] = (case n of 0 \<Rightarrow> [] | Suc m \<Rightarrow> a # replicate m b)"
proof (cases n)
  case 0
  then show ?thesis by simp
next
  case (Suc m)
  have "map (\<lambda>i. if i = 0 then a else b) [Suc 0 ..< Suc m] = map (\<lambda>i. b) [Suc 0 ..< Suc m]"
    by (rule map_cong) (auto simp del: upt_Suc)
  also have "\<dots> = replicate m b"
    by (simp add: map_replicate_const del: upt_Suc)
  finally show ?thesis
    using Suc by (simp add: upt_conv_Cons del: upt_Suc)
qed

text \<open>
  The loop of \<^verbatim>\<open>CudaDenoise\<close> unrolled: one pair of kernel calls per dual step, the first
  step \<^verbatim>\<open>1 + sigma\<close> and \<^verbatim>\<open>niters - 1\<close> steps \<^verbatim>\<open>sigma\<close>.
\<close>

lemma CudaDenoise_loop_unrolled:
  "CudaDenoise_loop rnd k par T rawInput s
     = foldl (\<lambda>s currsigma.
                (denoising_TVL1_update k
                   (denoising_TVL1_calculateP_tensor_weighed k T (fst (fst s)) currsigma (snd s))
                   rawInput (tau par, theta par, lambda par, sigma par) (fst s),
                 denoising_TVL1_calculateP_tensor_weighed k T (fst (fst s)) currsigma (snd s)))
         s
         (case niters par of 0 \<Rightarrow> []
          | Suc m \<Rightarrow> fadd rnd (Fin 1) (sigma par) # replicate m (sigma par))"
proof -
  have step: "TVL1_step k par T rawInput c s
      = (denoising_TVL1_update k
           (denoising_TVL1_calculateP_tensor_weighed k T (fst (fst s)) c (snd s))
           rawInput (tau par, theta par, lambda par, sigma par) (fst s),
         denoising_TVL1_calculateP_tensor_weighed k T (fst (fst s)) c (snd s))" for c s
    by (cases s) (simp add: TVL1_step_def Let_def)
  have "CudaDenoise_loop rnd k par T rawInput s
          = foldl (\<lambda>s currsigma. TVL1_step k par T rawInput currsigma s) s
              (map (\<lambda>i. if i = 0 then fadd rnd (Fin 1) (sigma par) else sigma par) [0 ..< niters par])"
    unfolding CudaDenoise_loop_def for_loop_foldl
    by (rule foldl_map_arg [where f = "TVL1_step k par T rawInput"])
  then show ?thesis
    by (simp add: first_then_rest step split: nat.split)
qed

lemma roundtrip_exact:
  fixes zn zf :: rat
  assumes "zn \<noteq> zf"
  shows "fadd exact
           (fmul exact
              (fmul exact (fadd exact v (Fin (- zn)))
                 (fdiv exact (Fin 1) (fsub exact (Fin zf) (Fin zn))))
              (fsub exact (Fin zf) (Fin zn)))
           (Fin zn) = v"
proof (cases v)
  case (Fin d)
  have "(d - zn) * (1 / (zf - zn)) * (zf - zn) + zn = d"
    using assms by (simp add: field_simps)
  then show ?thesis
    using assms Fin by (simp add: exact_def fsub_def)
qed (use assms in \<open>auto simp: exact_def fsub_def signed_inf_def\<close>)

lemma map_nth_upt: "length xs = n \<Longrightarrow> map (\<lambda>p. xs ! p) [0 ..< n] = xs"
  by (auto simp: map_nth)


lemma ConvertDepthtoUChar_defined:
  fixes zn zf :: rat
  assumes "monotone_rounding rnd" "rnd 0 = Fin 0" "rnd 255 = Fin 255"
    and "rnd (zf - zn) = Fin s" "0 < s"
    and "length (data input) = width input * height input"
      "width input * height input < 2 ^ 31"
  shows "\<exists>out. ConvertDepthtoUChar rnd (Fin zn) (Fin zf) input = Some out"
proof -
  have "\<forall>j < width input * height input.
          ConvertDepthtoUChar_pixel rnd (Fin zn) (Fin zf) (data input ! j)
            = Some (the (ConvertDepthtoUChar_pixel rnd (Fin zn) (Fin zf) (data input ! j)))"
    using pixel_defined [OF assms(1-5)] by (metis option.sel)
  then have "\<exists>out. ConvertDepthtoUChar rnd (Fin zn) (Fin zf) input = Some out
           \<and> width out = width input \<and> height out = height input
           \<and> length (data out) = width input * height input
           \<and> (\<forall>j < width input * height input. data out ! j
                 = the (ConvertDepthtoUChar_pixel rnd (Fin zn) (Fin zf) (data input ! j)))"
    by (rule ConvertDepthtoUChar_pointwise [OF assms(6,7)])
  then show ?thesis
    by blast
qed

lemma CudaDenoise_device_roundtrip:
  fixes zn zf :: rat
  assumes "niters par = 0" "znear st = Fin zn" "zfar st = Fin zf" "zn \<noteq> zf"
    and "length (data (depthmap st)) = width (depthmap st) * height (depthmap st)"
  shows "CudaDenoise_device exact k par st = data (depthmap st)"
proof -
  have loop: "CudaDenoise_loop exact k par T rawInput s = s" for T rawInput s
    using assms(1) by (simp add: CudaDenoise_loop_def for_loop.simps [of 0 0])
  have "CudaDenoise_device exact k par st
          = map (\<lambda>p. data (depthmap st) ! p) [0 ..< width (depthmap st) * height (depthmap st)]"
    using assms(2-4)
    by (simp add: CudaDenoise_device_def Let_def loop element_add_def element_scale_def
        roundtrip_exact)
  then show ?thesis
    using assms(5) by (simp add: map_nth_upt)
qed

text \<open>
  C7 (as amended). In exact arithmetic and for a range with \<open>znear < zfar\<close>, a call of
  \<^verbatim>\<open>CudaDenoise\<close> with \<^verbatim>\<open>niters = 0\<close> on an available, well-formed depth map, with a device
  and without fault, returns \<^verbatim>\<open>true\<close> and the refined depth map holds the pixels of the raw
  depth map.
\<close>

theorem CudaDenoise_zero_iterations:
  fixes zn zf :: rat
  assumes "niters par = 0" "depthavailable st"
    and "cudaDevInit env = Device" "device_fault env = NoFault"
    and "znear st = Fin zn" "zfar st = Fin zf" "zn < zf"
    and "length (data (depthmap st)) = width (depthmap st) * height (depthmap st)"
      "width (depthmap st) * height (depthmap st) < 2 ^ 31"
  shows "\<exists>st'. CudaDenoise exact k par env st = Some (Returned True, st')
           \<and> data (depthmapdenoised st') = data (depthmap st)
           \<and> width (depthmapdenoised st') = width (depthmap st)
           \<and> height (depthmapdenoised st') = height (depthmap st)
           \<and> depthmap st' = depthmap st"
proof -
  define w where "w = width (depthmap st)"
  define h where "h = height (depthmap st)"
  define st1 where "st1 = st\<lparr>d_depthmap := Some (Image_new w h),
                             depthmapdenoised := CamImage_reset w h (Fin 0),
                             depthmap8udenoised := CamImage_reset w h 0\<rparr>"
  define st2 where "st2 = st1\<lparr>d_depthmap := Some (data (depthmap st)),
      depthmapdenoised := (depthmapdenoised st1)\<lparr>data := data (depthmap st)\<rparr>\<rparr>"
  have d: "CudaDenoise_device exact k par st1 = data (depthmap st)"
    using CudaDenoise_device_roundtrip [of par st1 zn zf k] assms
    by (simp add: st1_def)
  have img: "length (data (depthmapdenoised st2)) = width (depthmapdenoised st2) * height (depthmapdenoised st2)"
    "width (depthmapdenoised st2) * height (depthmapdenoised st2) < 2 ^ 31"
    using assms(8,9) by (simp_all add: st2_def st1_def CamImage_reset_def w_def h_def)
  have "exact (zf - zn) = Fin (zf - zn)" "0 < zf - zn"
    using assms(7) by (simp_all add: exact_def)
  then obtain out where out:
    "ConvertDepthtoUChar exact (Fin zn) (Fin zf) (depthmapdenoised st2) = Some out"
    using ConvertDepthtoUChar_defined [OF monotone_exact _ _ _ _ img, of zf zn "zf - zn"]
    by (auto simp: exact_def)
  have "CudaDenoise exact k par env st = Some (Returned True, st2\<lparr>depthmap8udenoised := out\<rparr>)"
    using assms(2-6) out d
    by (simp add: CudaDenoise_def Let_def st2_def st1_def w_def h_def)
  then show ?thesis
    by (simp add: st2_def st1_def CamImage_reset_def w_def h_def)
qed

theorem CudaDenoise_zero_iterations_witness:
  "niters params_example = 0 \<and> depthavailable engine_example
   \<and> cudaDevInit cuda_ok = Device \<and> device_fault cuda_ok = NoFault
   \<and> znear engine_example = Fin 1 \<and> zfar engine_example = Fin 4 \<and> (1 :: rat) < 4
   \<and> length (data (depthmap engine_example))
       = width (depthmap engine_example) * height (depthmap engine_example)
   \<and> width (depthmap engine_example) * height (depthmap engine_example) < 2 ^ 31
   \<and> (\<exists>st'. CudaDenoise exact kernels_example params_example cuda_ok engine_example
               = Some (Returned True, st')
          \<and> data (depthmapdenoised st') = [Fin (15435039 / 8388608)])"
proof -
  have h: "niters params_example = 0" "depthavailable engine_example"
    "cudaDevInit cuda_ok = Device" "device_fault cuda_ok = NoFault"
    "znear engine_example = Fin 1" "zfar engine_example = Fin 4" "(1 :: rat) < 4"
    "length (data (depthmap engine_example))
       = width (depthmap engine_example) * height (depthmap engine_example)"
    "width (depthmap engine_example) * height (depthmap engine_example) < 2 ^ 31"
    by (simp_all add: params_example_def engine_example_def cuda_ok_def)
  have "data (depthmap engine_example) = [Fin (15435039 / 8388608)]"
    by (simp add: engine_example_def)
  then show ?thesis
    using h CudaDenoise_zero_iterations [OF h, of kernels_example] by auto
qed

text \<open>
  C7 as stated fails in single precision: for the range \<open>[1, 4]\<close> the pixel
  \<open>15435039 / 2\<^sup>2\<^sup>3\<close> (the float nearest to 1.84) comes back one unit in the last place
  larger, because the four operations round.
\<close>

theorem CudaDenoise_zero_iterations_counterexample:
  "niters params_example = 0
   \<and> data (depthmap engine_example) = [Fin (15435039 / 8388608)]
   \<and> CudaDenoise_device binary32 kernels_example params_example engine_example
       = [Fin (15435040 / 8388608)]"
  by code_simp


section \<open>Properties of the plane sweep\<close>

lemma int_of_size_le: "int_of_size n \<le> int n"
proof -
  have "int n mod 2 ^ 32 \<le> int n"
    by (rule zmod_le_nonneg_dividend) simp
  then show ?thesis
    by (auto simp: int_of_size_def Let_def)
qed

lemma nimgs_le: "nat (RunAlgorithm_nimgs n srcs) \<le> length srcs"
  using int_of_size_le [of "length srcs"] by (simp add: RunAlgorithm_nimgs_def)

lemma foldl_None:
  "foldl (\<lambda>glob i. case glob of None \<Rightarrow> None | Some g \<Rightarrow> f g i) None xs = None"
  by (induction xs) simp_all

lemma views_accumulate:
  assumes "foldl (\<lambda>glob i. case glob of None \<Rightarrow> None | Some g \<Rightarrow> PlaneSweepThread rnd ncc st g i)
             (Some (Image_new w h, Image_new w h)) [0 ..< n] = Some (gd, gn)"
    and "w = width (HostRef st)" "h = height (HostRef st)"
  shows "\<forall>p < w * h.
           gd ! p = foldl (fadd rnd) (Fin 0)
                      (map (\<lambda>i. case PlaneSweepThread_best rnd ncc st i of
                                   None \<Rightarrow> QNAN | Some (devDepth, devbestNCC) \<Rightarrow> devDepth ! p)
                         (filter (\<lambda>i. case PlaneSweepThread_best rnd ncc st i of
                                         None \<Rightarrow> False
                                       | Some (devDepth, devbestNCC) \<Rightarrow>
                                           flt (nccthresh st) (devbestNCC ! p)) [0 ..< n]))
         \<and> gn ! p = foldl (\<lambda>c i. fadd rnd c (Fin 1)) (Fin 0)
                      (filter (\<lambda>i. case PlaneSweepThread_best rnd ncc st i of
                                      None \<Rightarrow> False
                                    | Some (devDepth, devbestNCC) \<Rightarrow>
                                        flt (nccthresh st) (devbestNCC ! p)) [0 ..< n])"
  using assms(1)
proof (induction n arbitrary: gd gn)
  case 0
  then show ?case
    by (auto simp: Image_new_def)
next
  case (Suc n)
  let ?body = "\<lambda>glob i. case glob of None \<Rightarrow> None | Some g \<Rightarrow> PlaneSweepThread rnd ncc st g i"
  let ?init = "Some (Image_new w h, Image_new w h)"
  have step: "?body (foldl ?body ?init [0 ..< n]) n = Some (gd, gn)"
    using Suc.prems by simp
  then obtain gd' gn' where prev: "foldl ?body ?init [0 ..< n] = Some (gd', gn')"
    by (cases "foldl ?body ?init [0 ..< n]") auto
  then have thread: "PlaneSweepThread rnd ncc st (gd', gn') n = Some (gd, gn)"
    using step by simp
  then obtain dD dB where best: "PlaneSweepThread_best rnd ncc st n = Some (dD, dB)"
    by (cases "PlaneSweepThread_best rnd ncc st n") (auto simp: PlaneSweepThread_def)
  have acc: "(gd, gn) = sum_depthmap_NCC rnd w h (gd', gn') (dD, dB) (nccthresh st)"
    using thread best assms(2,3) by (simp add: PlaneSweepThread_def)
  show ?case
  proof (intro allI impI)
    fix p assume p: "p < w * h"
    have gd: "gd ! p = (if flt (nccthresh st) (dB ! p) then fadd rnd (gd' ! p) (dD ! p) else gd' ! p)"
      and gn: "gn ! p = (if flt (nccthresh st) (dB ! p) then fadd rnd (gn' ! p) (Fin 1) else gn' ! p)"
      using acc p by (simp_all add: sum_depthmap_NCC_def)
    show "gd ! p = foldl (fadd rnd) (Fin 0)
                      (map (\<lambda>i. case PlaneSweepThread_best rnd ncc st i of
                                   None \<Rightarrow> QNAN | Some (devDepth, devbestNCC) \<Rightarrow> devDepth ! p)
                         (filter (\<lambda>i. case PlaneSweepThread_best rnd ncc st i of
                                         None \<Rightarrow> False
                                       | Some (devDepth, devbestNCC) \<Rightarrow>
                                           flt (nccthresh st) (devbestNCC ! p)) [0 ..< Suc n]))
         \<and> gn ! p = foldl (\<lambda>c i. fadd rnd c (Fin 1)) (Fin 0)
                      (filter (\<lambda>i. case PlaneSweepThread_best rnd ncc st i of
                                      None \<Rightarrow> False
                                    | Some (devDepth, devbestNCC) \<Rightarrow>
                                        flt (nccthresh st) (devbestNCC ! p)) [0 ..< Suc n])"
      using Suc.IH [OF prev, rule_format, OF p] gd gn best by simp
  qed
qed


lemma count_exact:
  assumes "\<forall>k < n. rnd (of_nat k + 1) = Fin (of_nat k + 1)" "length xs \<le> n"
  shows "foldl (\<lambda>c i. fadd rnd c (Fin 1)) (Fin 0) xs = Fin (of_nat (length xs))"
  using assms(2)
proof (induction xs rule: rev_induct)
  case Nil
  then show ?case by simp
next
  case (snoc x xs)
  then have "length xs < n"
    by simp
  then have "rnd (of_nat (length xs) + 1) = Fin (of_nat (length xs) + 1)"
    using assms(1) by simp
  then show ?case
    using snoc by simp
qed

lemma PlaneSweepThread_best_depthmap [simp]:
  "PlaneSweepThread_best rnd ncc (st\<lparr>depthmap := m\<rparr>) i = PlaneSweepThread_best rnd ncc st i"
  by (simp add: PlaneSweepThread_best_def)

lemma RunAlgorithm_device_pixel:
  assumes "RunAlgorithm_device rnd ncc st = Some dm"
    and "p < width (HostRef st) * height (HostRef st)"
  shows "dm ! p = fdiv rnd (fsum rnd (map (winning_depth rnd ncc st p) (passing_views rnd ncc st p)))
                    (foldl (\<lambda>c i. fadd rnd c (Fin 1)) (Fin 0) (passing_views rnd ncc st p))"
proof -
  define w where "w = width (HostRef st)"
  define h where "h = height (HostRef st)"
  define n where "n = nat (RunAlgorithm_nimgs (numberimages st) (HostSrc st))"
  let ?body = "\<lambda>glob i. case glob of None \<Rightarrow> None | Some g \<Rightarrow> PlaneSweepThread rnd ncc st g i"
  have loop: "for_views 0 (RunAlgorithm_nimgs (numberimages st) (HostSrc st))
                (\<lambda>i glob. case glob of None \<Rightarrow> None | Some g \<Rightarrow> PlaneSweepThread rnd ncc st g i)
                (Some (Image_new w h, Image_new w h))
              = foldl ?body (Some (Image_new w h, Image_new w h)) [0 ..< n]"
    by (simp add: for_views_foldl n_def)
  obtain gd gn where acc: "foldl ?body (Some (Image_new w h, Image_new w h)) [0 ..< n] = Some (gd, gn)"
    and dm: "dm = set_QNAN_value w h (element_rdivide rnd w h gd gn) (zfar st)"
    using assms(1) unfolding RunAlgorithm_device_def Let_def w_def [symmetric] h_def [symmetric] loop
    by (auto split: option.splits)
  have p: "p < w * h"
    using assms(2) by (simp add: w_def h_def)
  have q: "dm ! p = fdiv rnd (gd ! p) (gn ! p)"
    using p by (simp add: dm set_QNAN_value_def element_rdivide_def feq_def)
  show ?thesis
    using views_accumulate [OF acc w_def h_def, rule_format, OF p]
    by (simp add: q fsum_def passing_views_def winning_depth_def [abs_def] n_def)
qed

lemma RunAlgorithm_success:
  assumes "RunAlgorithm rnd ncc env st = Some (Returned True, st')"
  shows "RunAlgorithm_device rnd ncc st = Some (data (depthmap st'))"
proof -
  have thread: "PlaneSweepThread rnd ncc (st\<lparr>depthmap := m\<rparr>) g i = PlaneSweepThread rnd ncc st g i"
    for m g i
    by (simp add: PlaneSweepThread_def split: option.splits)
  have same: "RunAlgorithm_device rnd ncc (st\<lparr>depthmap := m\<rparr>) = RunAlgorithm_device rnd ncc st" for m
    by (simp add: RunAlgorithm_device_def thread cong: option.case_cong)
  show ?thesis
    using assms
    by (auto simp: RunAlgorithm_def Let_def same reset_and_fail_def cudaReset_def
        split: dev_init.splits if_splits option.splits)
qed

text \<open>
  C1. If a plane-sweep run returns and a pixel of its depth map holds a defined depth (not
  the NaN), then at least one source view had its best NCC above \<^verbatim>\<open>nccthresh\<close> at that pixel,
  and the depth is the sum of the winning depths of those views divided by their number.
  The counts up to the number of source views are taken to be exactly representable.
\<close>

theorem RunAlgorithm_average:
  assumes "RunAlgorithm rnd ncc env st = Some (Returned True, st')"
    and "p < width (HostRef st) * height (HostRef st)"
    and "data (depthmap st') ! p \<noteq> QNAN"
    and "\<forall>k < length (HostSrc st). rnd (of_nat k + 1) = Fin (of_nat k + 1)"
  shows "0 < length (passing_views rnd ncc st p)
       \<and> data (depthmap st') ! p
           = fdiv rnd (fsum rnd (map (winning_depth rnd ncc st p) (passing_views rnd ncc st p)))
               (Fin (of_nat (length (passing_views rnd ncc st p))))"
proof -
  have len: "length (passing_views rnd ncc st p) \<le> length (HostSrc st)"
  proof -
    have "length (passing_views rnd ncc st p)
            \<le> length [0 ..< nat (RunAlgorithm_nimgs (numberimages st) (HostSrc st))]"
      unfolding passing_views_def by (rule length_filter_le)
    then show ?thesis
      using nimgs_le [of "numberimages st" "HostSrc st"] by simp
  qed
  have cnt: "foldl (\<lambda>c i. fadd rnd c (Fin 1)) (Fin 0) (passing_views rnd ncc st p)
               = Fin (of_nat (length (passing_views rnd ncc st p)))"
    using assms(4) len by (rule count_exact)
  have px: "data (depthmap st') ! p
              = fdiv rnd (fsum rnd (map (winning_depth rnd ncc st p) (passing_views rnd ncc st p)))
                  (Fin (of_nat (length (passing_views rnd ncc st p))))"
    using RunAlgorithm_device_pixel [OF RunAlgorithm_success [OF assms(1)] assms(2)] cnt by simp
  have "passing_views rnd ncc st p \<noteq> []"
  proof
    assume "passing_views rnd ncc st p = []"
    then have "data (depthmap st') ! p = QNAN"
      using px by (simp add: fsum_def signed_inf_def)
    then show False
      using assms(3) by simp
  qed
  then show ?thesis
    using px by simp
qed

theorem RunAlgorithm_average_witness:
  "RunAlgorithm binary32 ncc_high cuda_ok engine_example
     = Some (Returned True,
             engine_example\<lparr>depthmap := \<lparr>width = 1, height = 1, data = [Fin 1]\<rparr>,
                            depthmap8u := \<lparr>width = 1, height = 1, data = [0]\<rparr>,
                            depthavailable := True\<rparr>)
   \<and> passing_views binary32 ncc_high engine_example 0 = [0]
   \<and> winning_depth binary32 ncc_high engine_example 0 0 = Fin 1
   \<and> fdiv binary32 (fsum binary32 (map (winning_depth binary32 ncc_high engine_example 0)
                                 (passing_views binary32 ncc_high engine_example 0)))
         (Fin (of_nat (length (passing_views binary32 ncc_high engine_example 0)))) = Fin 1"
proof -
  let ?st' = "engine_example\<lparr>depthmap := \<lparr>width = 1, height = 1, data = [Fin 1]\<rparr>,
                            depthmap8u := \<lparr>width = 1, height = 1, data = [0]\<rparr>,
                            depthavailable := True\<rparr>"
  have run: "RunAlgorithm binary32 ncc_high cuda_ok engine_example = Some (Returned True, ?st')"
    by code_simp
  have p: "0 < width (HostRef engine_example) * height (HostRef engine_example)"
    by (simp add: engine_example_def)
  have d: "data (depthmap ?st') ! 0 \<noteq> QNAN"
    by simp
  have one: "binary32 1 = Fin 1"
    by code_simp
  have c: "\<forall>k < length (HostSrc engine_example). binary32 (of_nat k + 1) = Fin (of_nat k + 1)"
    by (simp add: engine_example_def one)
  have v: "passing_views binary32 ncc_high engine_example 0 = [0]"
    "winning_depth binary32 ncc_high engine_example 0 0 = Fin 1"
    by code_simp+
  show ?thesis
    using run v RunAlgorithm_average [OF run p d c] by simp
qed

text \<open>
  C3. If a plane-sweep run returns, every pixel at which no source view had its best NCC
  above \<^verbatim>\<open>nccthresh\<close> holds the NaN in the exported depth map, which is no finite depth.
\<close>

theorem RunAlgorithm_undefined:
  assumes "RunAlgorithm rnd ncc env st = Some (Returned True, st')"
    and "p < width (HostRef st) * height (HostRef st)"
    and "passing_views rnd ncc st p = []"
  shows "data (depthmap st') ! p = QNAN \<and> (\<forall>d. data (depthmap st') ! p \<noteq> Fin d)"
  using RunAlgorithm_device_pixel [OF RunAlgorithm_success [OF assms(1)] assms(2)] assms(3)
  by (simp add: fsum_def signed_inf_def)


theorem RunAlgorithm_undefined_witness:
  "RunAlgorithm binary32 ncc_low cuda_ok engine_example
     = Some (Returned True,
             engine_example\<lparr>depthmap := \<lparr>width = 1, height = 1, data = [QNAN]\<rparr>,
                            depthmap8u := \<lparr>width = 1, height = 1, data = [255]\<rparr>,
                            depthavailable := True\<rparr>)
   \<and> passing_views binary32 ncc_low engine_example 0 = []"
proof -
  let ?st' = "engine_example\<lparr>depthmap := \<lparr>width = 1, height = 1, data = [QNAN]\<rparr>,
                            depthmap8u := \<lparr>width = 1, height = 1, data = [255]\<rparr>,
                            depthavailable := True\<rparr>"
  have run: "RunAlgorithm binary32 ncc_low cuda_ok engine_example = Some (Returned True, ?st')"
    by code_simp
  have p: "0 < width (HostRef engine_example) * height (HostRef engine_example)"
    by (simp add: engine_example_def)
  have v: "passing_views binary32 ncc_low engine_example 0 = []"
    by code_simp
  show ?thesis
    using run v RunAlgorithm_undefined [OF run p v] by simp
qed


section \<open>Properties of the failure paths\<close>

lemma reset_and_fail_cases:
  "reset_and_fail env st = (r, st') \<Longrightarrow>
     (r = Escaped \<and> reset_fault env \<and> st' = st)
   \<or> (r = Returned False \<and> \<not> reset_fault env
        \<and> st' = st\<lparr>device_resets := Suc (device_resets st), d_depthmap := None\<rparr>)"
  by (auto simp: reset_and_fail_def cudaReset_def split: if_splits)

lemma RunAlgorithm_cases:
  assumes "RunAlgorithm rnd ncc env st = Some (r, st')"
  shows "(r = Returned True \<and> device_resets st' = device_resets st)
       \<or> (r \<noteq> Returned True
            \<and> reset_and_fail env (st\<lparr>depthmap := CamImage_reset (width (HostRef st)) (height (HostRef st)) (Fin 0)\<rparr>) = (r, st'))"
  using assms
  by (auto simp: RunAlgorithm_def Let_def dest!: reset_and_fail_cases
      split: dev_init.splits if_splits option.splits)


lemma CudaDenoise_cases:
  assumes "CudaDenoise rnd k par env st = Some (r, st')"
  shows "(r = Returned True \<and> depthavailable st \<and> device_resets st' = device_resets st)
       \<or> (\<not> depthavailable st \<and> r = Returned False \<and> st' = st)
       \<or> (depthavailable st \<and> r \<noteq> Returned True \<and> reset_and_fail env st = (r, st'))
       \<or> (depthavailable st \<and> r \<noteq> Returned True
            \<and> reset_and_fail env (st\<lparr>d_depthmap := Some (Image_new (width (depthmap st)) (height (depthmap st))),
                     depthmapdenoised :=
                       CamImage_reset (width (depthmap st)) (height (depthmap st)) (Fin 0),
                     depthmap8udenoised :=
                       CamImage_reset (width (depthmap st)) (height (depthmap st)) 0\<rparr>) = (r, st'))"
  using assms
  by (auto simp: CudaDenoise_def Let_def dest!: reset_and_fail_cases
      split: dev_init.splits if_splits option.splits)

lemma TGV_cases:
  assumes "TGV rnd solver env st = Some (r, st')"
  shows "(r = Returned True \<and> device_resets st' = device_resets st)
       \<or> (r \<noteq> Returned True \<and> reset_and_fail env st = (r, st'))
       \<or> (r \<noteq> Returned True
            \<and> reset_and_fail env (st\<lparr>depthmapTGV :=
                       CamImage_reset (width (HostRef st)) (height (HostRef st)) (Fin 0),
                     depthmap8uTGV :=
                       CamImage_reset (width (HostRef st)) (height (HostRef st)) 0\<rparr>) = (r, st'))"
  using assms
  by (auto simp: TGV_def Let_def dest!: reset_and_fail_cases
      split: dev_init.splits if_splits option.splits)

lemma TGVdenoiseFromSparse_cases:
  assumes "TGVdenoiseFromSparse rnd solver env depth st = Some (r, st')"
  shows "(r = Returned True \<and> device_resets st' = device_resets st)
       \<or> (r \<noteq> Returned True \<and> reset_and_fail env st = (r, st'))
       \<or> (r \<noteq> Returned True
            \<and> reset_and_fail env (st\<lparr>depthmapTGV :=
                       CamImage_reset (width (HostRef st)) (height (HostRef st)) (Fin 0)\<rparr>) = (r, st'))"
  using assms
  by (auto simp: TGVdenoiseFromSparse_def Let_def dest!: reset_and_fail_cases
      split: dev_init.splits if_splits option.splits)


lemma Denoise_cases:
  assumes "Denoise cv st = (r, st')"
  shows "device_resets st' = device_resets st \<and> (r = Returned False \<longleftrightarrow> \<not> depthavailable st)
       \<and> (\<not> depthavailable st \<longrightarrow> st' = st)"
  using assms by (auto simp: Denoise_def Let_def split: if_splits option.splits)

lemma get3Dcoordinates_cases:
  assumes "get3Dcoordinates c3d env st = (r, st')"
  shows "(r = Escaped \<longrightarrow> reset_fault env)
       \<and> (device_fault env \<noteq> NoFault \<and> \<not> reset_fault env
            \<longrightarrow> r = Returned () \<and> device_resets st' = Suc (device_resets st))
       \<and> (device_fault env = NoFault
            \<longrightarrow> r = Returned () \<and> device_resets st' = device_resets st)"
  using assms
  by (cases "device_fault env")
    (auto simp: get3Dcoordinates_def Let_def cudaReset_def split: if_splits prod.splits)

text \<open>
  C8 (as amended). \<^verbatim>\<open>RunAlgorithm\<close>, \<^verbatim>\<open>TGV\<close> and \<^verbatim>\<open>TGVdenoiseFromSparse\<close> return a boolean,
  and when they return \<^verbatim>\<open>false\<close> the compute context has been reset once; so does
  \<^verbatim>\<open>CudaDenoise\<close> when a depth map is available, while without one it returns \<^verbatim>\<open>false\<close> and
  leaves the engine, and the context, as they are. \<^verbatim>\<open>Denoise\<close> never resets the context and
  returns \<^verbatim>\<open>false\<close> exactly when no depth map is available. \<^verbatim>\<open>get3Dcoordinates\<close> returns no
  flag: after a fault it resets the context and returns as it does after a success. An
  exception of a CUDA call reaches the caller only when \<^verbatim>\<open>cudaDeviceReset\<close> itself fails.
\<close>

theorem entry_points_failure_reset:
  "(RunAlgorithm rnd ncc env st = Some (ra, sta) \<longrightarrow>
      (ra = Returned False \<longrightarrow> device_resets sta = Suc (device_resets st))
    \<and> (ra = Escaped \<longrightarrow> reset_fault env))
 \<and> (CudaDenoise rnd k par env st = Some (rb, stb) \<longrightarrow>
      (rb = Returned False \<and> depthavailable st \<longrightarrow> device_resets stb = Suc (device_resets st))
    \<and> (\<not> depthavailable st \<longrightarrow> rb = Returned False \<and> stb = st)
    \<and> (rb = Escaped \<longrightarrow> reset_fault env))
 \<and> (TGV rnd solver env st = Some (rc, stc) \<longrightarrow>
      (rc = Returned False \<longrightarrow> device_resets stc = Suc (device_resets st))
    \<and> (rc = Escaped \<longrightarrow> reset_fault env))
 \<and> (TGVdenoiseFromSparse rnd sparse env depth st = Some (rd, std) \<longrightarrow>
      (rd = Returned False \<longrightarrow> device_resets std = Suc (device_resets st))
    \<and> (rd = Escaped \<longrightarrow> reset_fault env))
 \<and> (Denoise cv st = (re, ste) \<longrightarrow>
      device_resets ste = device_resets st
    \<and> (re = Returned False \<longleftrightarrow> \<not> depthavailable st))
 \<and> (get3Dcoordinates c3d env st = (rf, stf) \<longrightarrow>
      (rf = Escaped \<longrightarrow> reset_fault env)
    \<and> (device_fault env \<noteq> NoFault \<and> \<not> reset_fault env
         \<longrightarrow> rf = Returned () \<and> device_resets stf = Suc (device_resets st))
    \<and> (device_fault env = NoFault
         \<longrightarrow> rf = Returned () \<and> device_resets stf = device_resets st))"
proof (intro conjI impI)
  assume a: "RunAlgorithm rnd ncc env st = Some (ra, sta)"
  show "ra = Returned False \<Longrightarrow> device_resets sta = Suc (device_resets st)"
    using RunAlgorithm_cases [OF a] by (auto dest!: reset_and_fail_cases)
  show "ra = Escaped \<Longrightarrow> reset_fault env"
    using RunAlgorithm_cases [OF a] by (auto dest!: reset_and_fail_cases)
next
  assume a: "CudaDenoise rnd k par env st = Some (rb, stb)"
  show "rb = Returned False \<and> depthavailable st \<Longrightarrow> device_resets stb = Suc (device_resets st)"
    using CudaDenoise_cases [OF a] by (auto dest!: reset_and_fail_cases)
  show "\<not> depthavailable st \<Longrightarrow> rb = Returned False" "\<not> depthavailable st \<Longrightarrow> stb = st"
    using CudaDenoise_cases [OF a] by auto
  show "rb = Escaped \<Longrightarrow> reset_fault env"
    using CudaDenoise_cases [OF a] by (auto dest!: reset_and_fail_cases)
next
  assume a: "TGV rnd solver env st = Some (rc, stc)"
  show "rc = Returned False \<Longrightarrow> device_resets stc = Suc (device_resets st)"
    using TGV_cases [OF a] by (auto dest!: reset_and_fail_cases)
  show "rc = Escaped \<Longrightarrow> reset_fault env"
    using TGV_cases [OF a] by (auto dest!: reset_and_fail_cases)
next
  assume a: "TGVdenoiseFromSparse rnd sparse env depth st = Some (rd, std)"
  show "rd = Returned False \<Longrightarrow> device_resets std = Suc (device_resets st)"
    using TGVdenoiseFromSparse_cases [OF a] by (auto dest!: reset_and_fail_cases)
  show "rd = Escaped \<Longrightarrow> reset_fault env"
    using TGVdenoiseFromSparse_cases [OF a] by (auto dest!: reset_and_fail_cases)
next
  assume a: "Denoise cv st = (re, ste)"
  show "device_resets ste = device_resets st" "(re = Returned False) = (\<not> depthavailable st)"
    using Denoise_cases [OF a] by auto
next
  assume a: "get3Dcoordinates c3d env st = (rf, stf)"
  show "rf = Escaped \<Longrightarrow> reset_fault env"
    "device_fault env \<noteq> NoFault \<and> \<not> reset_fault env \<Longrightarrow> rf = Returned ()"
    "device_fault env \<noteq> NoFault \<and> \<not> reset_fault env
       \<Longrightarrow> device_resets stf = Suc (device_resets st)"
    "device_fault env = NoFault \<Longrightarrow> rf = Returned ()"
    "device_fault env = NoFault \<Longrightarrow> device_resets stf = device_resets st"
    using get3Dcoordinates_cases [OF a] by auto
qed


theorem entry_points_failure_reset_witness:
  "RunAlgorithm exact ncc_high cuda_no_device engine_example
     = Some (Returned False,
             engine_example\<lparr>depthmap := \<lparr>width = 1, height = 1, data = [Fin 0]\<rparr>,
                            device_resets := 1\<rparr>)
   \<and> CudaDenoise exact kernels_example params_example cuda_no_device engine_example
     = Some (Returned False, engine_example\<lparr>device_resets := 1\<rparr>)
   \<and> TGV exact solver_example cuda_no_device engine_example
     = Some (Returned False, engine_example\<lparr>device_resets := 1\<rparr>)
   \<and> TGVdenoiseFromSparse exact sparse_solver_example cuda_no_device (depthmap engine_example)
         engine_example
     = Some (Returned False, engine_example\<lparr>device_resets := 1\<rparr>)
   \<and> Denoise Some engine_example
     = (Returned True,
        engine_example\<lparr>depthmap8udenoised := \<lparr>width = 1, height = 1, data = [71]\<rparr>\<rparr>)
   \<and> get3Dcoordinates compute3D_example cuda_no_device engine_example
     = (Returned (),
        engine_example\<lparr>coord_x := \<lparr>width = 1, height = 1, data = [Fin 0]\<rparr>,
                       coord_y := \<lparr>width = 1, height = 1, data = [Fin 0]\<rparr>,
                       coord_z := \<lparr>width = 1, height = 1, data = [Fin 2]\<rparr>\<rparr>)
   \<and> device_resets engine_example = 0 \<and> depthavailable engine_example
   \<and> device_fault cuda_no_device = NoFault"
proof -
  have runs:
    "RunAlgorithm exact ncc_high cuda_no_device engine_example
     = Some (Returned False,
             engine_example\<lparr>depthmap := \<lparr>width = 1, height = 1, data = [Fin 0]\<rparr>,
                            device_resets := 1\<rparr>)"
    "CudaDenoise exact kernels_example params_example cuda_no_device engine_example
     = Some (Returned False, engine_example\<lparr>device_resets := 1\<rparr>)"
    "TGV exact solver_example cuda_no_device engine_example
     = Some (Returned False, engine_example\<lparr>device_resets := 1\<rparr>)"
    "TGVdenoiseFromSparse exact sparse_solver_example cuda_no_device (depthmap engine_example)
         engine_example
     = Some (Returned False, engine_example\<lparr>device_resets := 1\<rparr>)"
    "Denoise Some engine_example
     = (Returned True,
        engine_example\<lparr>depthmap8udenoised := \<lparr>width = 1, height = 1, data = [71]\<rparr>\<rparr>)"
    "get3Dcoordinates compute3D_example cuda_no_device engine_example
     = (Returned (),
        engine_example\<lparr>coord_x := \<lparr>width = 1, height = 1, data = [Fin 0]\<rparr>,
                       coord_y := \<lparr>width = 1, height = 1, data = [Fin 0]\<rparr>,
                       coord_z := \<lparr>width = 1, height = 1, data = [Fin 2]\<rparr>\<rparr>)"
    by code_simp+
  have facts: "device_resets engine_example = 0" "depthavailable engine_example"
    "device_fault cuda_no_device = NoFault"
    by (simp_all add: engine_example_def cuda_no_device_def)
  show ?thesis
    using runs facts
      entry_points_failure_reset [where rnd = exact and ncc = ncc_high and env = cuda_no_device
        and st = engine_example and ra = "Returned False"
        and sta = "engine_example\<lparr>depthmap := \<lparr>width = 1, height = 1, data = [Fin 0]\<rparr>,
                                     device_resets := 1\<rparr>"
        and k = kernels_example and par = params_example and rb = "Returned False"
        and stb = "engine_example\<lparr>device_resets := 1\<rparr>"
        and solver = solver_example and rc = "Returned False"
        and stc = "engine_example\<lparr>device_resets := 1\<rparr>"
        and sparse = sparse_solver_example and depth = "depthmap engine_example"
        and rd = "Returned False" and std = "engine_example\<lparr>device_resets := 1\<rparr>"
        and cv = Some and re = "Returned True"
        and ste = "engine_example\<lparr>depthmap8udenoised :=
                                       \<lparr>width = 1, height = 1, data = [71]\<rparr>\<rparr>"
        and c3d = compute3D_example and rf = "Returned ()"
        and stf = "engine_example\<lparr>coord_x := \<lparr>width = 1, height = 1, data = [Fin 0]\<rparr>,
                                     coord_y := \<lparr>width = 1, height = 1, data = [Fin 0]\<rparr>,
                                     coord_z := \<lparr>width = 1, height = 1, data = [Fin 2]\<rparr>\<rparr>"]
    by simp
qed

text \<open>
  C8 as stated fails: without a depth map \<^verbatim>\<open>CudaDenoise\<close> returns \<^verbatim>\<open>false\<close> and the engine is
  exactly as before, so the compute context has not been reset.
\<close>

theorem entry_points_failure_reset_counterexample:
  "CudaDenoise exact kernels_example params_example cuda_ok
     (engine_example\<lparr>depthavailable := False\<rparr>)
   = Some (Returned False, engine_example\<lparr>depthavailable := False\<rparr>)
   \<and> device_resets (engine_example\<lparr>depthavailable := False\<rparr>) = 0"
  by code_simp


lemma RunAlgorithm_failed:
  assumes "RunAlgorithm rnd ncc env st = Some (Returned False, st')"
  shows "st' = st\<lparr>depthmap := CamImage_reset (width (HostRef st)) (height (HostRef st)) (Fin 0),
                  device_resets := Suc (device_resets st), d_depthmap := None\<rparr>"
  using RunAlgorithm_cases [OF assms] by (auto dest!: reset_and_fail_cases)

lemma CudaDenoise_failed:
  assumes "CudaDenoise rnd k par env st = Some (Returned False, st')"
  shows "depthmap st' = depthmap st \<and> depthmap8u st' = depthmap8u st
       \<and> depthmapTGV st' = depthmapTGV st \<and> depthmap8uTGV st' = depthmap8uTGV st
       \<and> (depthavailable st \<and> cudaDevInit env = Device \<and> device_fault env = LateFault
            \<longrightarrow> depthmapdenoised st'
                  = CamImage_reset (width (depthmap st)) (height (depthmap st)) (Fin 0)
              \<and> depthmap8udenoised st'
                  = CamImage_reset (width (depthmap st)) (height (depthmap st)) 0)
       \<and> (\<not> (depthavailable st \<and> cudaDevInit env = Device \<and> device_fault env = LateFault)
            \<longrightarrow> depthmapdenoised st' = depthmapdenoised st
              \<and> depthmap8udenoised st' = depthmap8udenoised st)"
  using assms
  by (auto simp: CudaDenoise_def Let_def dest!: reset_and_fail_cases
      split: dev_init.splits if_splits option.splits)

lemma TGV_failed:
  assumes "TGV rnd solver env st = Some (Returned False, st')"
  shows "depthmap st' = depthmap st \<and> depthmap8u st' = depthmap8u st
       \<and> depthmapdenoised st' = depthmapdenoised st
       \<and> depthmap8udenoised st' = depthmap8udenoised st
       \<and> (cudaDevInit env = Device
            \<longrightarrow> depthmapTGV st' = CamImage_reset (width (HostRef st)) (height (HostRef st)) (Fin 0)
              \<and> depthmap8uTGV st' = CamImage_reset (width (HostRef st)) (height (HostRef st)) 0)
       \<and> (cudaDevInit env \<noteq> Device
            \<longrightarrow> depthmapTGV st' = depthmapTGV st \<and> depthmap8uTGV st' = depthmap8uTGV st)"
  using assms
  by (auto simp: TGV_def Let_def dest!: reset_and_fail_cases
      split: dev_init.splits if_splits option.splits)

lemma TGVdenoiseFromSparse_failed:
  assumes "TGVdenoiseFromSparse rnd sparse env depth st = Some (Returned False, st')"
  shows "depthmap st' = depthmap st \<and> depthmap8u st' = depthmap8u st
       \<and> depthmapdenoised st' = depthmapdenoised st
       \<and> depthmap8udenoised st' = depthmap8udenoised st
       \<and> depthmap8uTGV st' = depthmap8uTGV st
       \<and> (cudaDevInit env = Device
            \<longrightarrow> depthmapTGV st' = CamImage_reset (width (HostRef st)) (height (HostRef st)) (Fin 0))
       \<and> (cudaDevInit env \<noteq> Device \<longrightarrow> depthmapTGV st' = depthmapTGV st)"
  using assms
  by (auto simp: TGVdenoiseFromSparse_def Let_def dest!: reset_and_fail_cases
      split: dev_init.splits if_splits option.splits)

text \<open>
  C9 (as amended). A stage that returns failure leaves the outputs of the other stages as
  they were, but not always its own: \<^verbatim>\<open>RunAlgorithm\<close> has reset the raw depth map to the size
  of the reference image; \<^verbatim>\<open>CudaDenoise\<close> has reset both denoised images when the fault came
  after its device buffer was allocated; \<^verbatim>\<open>TGV\<close> has reset both TGV images, and
  \<^verbatim>\<open>TGVdenoiseFromSparse\<close> the TGV depth map, whenever a device was found.
\<close>

theorem failed_stage_outputs:
  "(RunAlgorithm rnd ncc env st = Some (Returned False, sta) \<longrightarrow>
      depthmap sta = CamImage_reset (width (HostRef st)) (height (HostRef st)) (Fin 0)
    \<and> depthmap8u sta = depthmap8u st
    \<and> depthmapdenoised sta = depthmapdenoised st
    \<and> depthmap8udenoised sta = depthmap8udenoised st
    \<and> depthmapTGV sta = depthmapTGV st \<and> depthmap8uTGV sta = depthmap8uTGV st
    \<and> depthavailable sta = depthavailable st)
 \<and> (CudaDenoise rnd k par env st = Some (Returned False, stb) \<longrightarrow>
      depthmap stb = depthmap st \<and> depthmap8u stb = depthmap8u st
    \<and> depthmapTGV stb = depthmapTGV st \<and> depthmap8uTGV stb = depthmap8uTGV st
    \<and> (depthavailable st \<and> cudaDevInit env = Device \<and> device_fault env = LateFault
         \<longrightarrow> depthmapdenoised stb
               = CamImage_reset (width (depthmap st)) (height (depthmap st)) (Fin 0)
           \<and> depthmap8udenoised stb
               = CamImage_reset (width (depthmap st)) (height (depthmap st)) 0)
    \<and> (\<not> (depthavailable st \<and> cudaDevInit env = Device \<and> device_fault env = LateFault)
         \<longrightarrow> depthmapdenoised stb = depthmapdenoised st
           \<and> depthmap8udenoised stb = depthmap8udenoised st))
 \<and> (TGV rnd solver env st = Some (Returned False, stc) \<longrightarrow>
      depthmap stc = depthmap st \<and> depthmap8u stc = depthmap8u st
    \<and> depthmapdenoised stc = depthmapdenoised st
    \<and> depthmap8udenoised stc = depthmap8udenoised st
    \<and> (cudaDevInit env = Device
         \<longrightarrow> depthmapTGV stc = CamImage_reset (width (HostRef st)) (height (HostRef st)) (Fin 0)
           \<and> depthmap8uTGV stc = CamImage_reset (width (HostRef st)) (height (HostRef st)) 0)
    \<and> (cudaDevInit env \<noteq> Device
         \<longrightarrow> depthmapTGV stc = depthmapTGV st \<and> depthmap8uTGV stc = depthmap8uTGV st))
 \<and> (TGVdenoiseFromSparse rnd sparse env depth st = Some (Returned False, std) \<longrightarrow>
      depthmap std = depthmap st \<and> depthmap8u std = depthmap8u st
    \<and> depthmapdenoised std = depthmapdenoised st
    \<and> depthmap8udenoised std = depthmap8udenoised st
    \<and> depthmap8uTGV std = depthmap8uTGV st
    \<and> (cudaDevInit env = Device
         \<longrightarrow> depthmapTGV std = CamImage_reset (width (HostRef st)) (height (HostRef st)) (Fin 0))
    \<and> (cudaDevInit env \<noteq> Device \<longrightarrow> depthmapTGV std = depthmapTGV st))"
proof (intro conjI)
  show "RunAlgorithm rnd ncc env st = Some (Returned False, sta) \<longrightarrow>
      depthmap sta = CamImage_reset (width (HostRef st)) (height (HostRef st)) (Fin 0)
    \<and> depthmap8u sta = depthmap8u st
    \<and> depthmapdenoised sta = depthmapdenoised st
    \<and> depthmap8udenoised sta = depthmap8udenoised st
    \<and> depthmapTGV sta = depthmapTGV st \<and> depthmap8uTGV sta = depthmap8uTGV st
    \<and> depthavailable sta = depthavailable st"
    using RunAlgorithm_failed by fastforce
qed (use CudaDenoise_failed TGV_failed TGVdenoiseFromSparse_failed in blast)+

theorem failed_stage_outputs_witness:
  "RunAlgorithm exact ncc_high cuda_late_fault engine_example
     = Some (Returned False,
             engine_example\<lparr>depthmap := \<lparr>width = 1, height = 1, data = [Fin 0]\<rparr>,
                            device_resets := 1\<rparr>)
   \<and> CudaDenoise exact kernels_example params_example cuda_late_fault engine_example
     = Some (Returned False,
             engine_example\<lparr>depthmapdenoised := \<lparr>width = 1, height = 1, data = [Fin 0]\<rparr>,
                            depthmap8udenoised := \<lparr>width = 1, height = 1, data = [0]\<rparr>,
                            device_resets := 1\<rparr>)
   \<and> TGV exact solver_example cuda_late_fault engine_example
     = Some (Returned False,
             engine_example\<lparr>depthmapTGV := \<lparr>width = 1, height = 1, data = [Fin 0]\<rparr>,
                            depthmap8uTGV := \<lparr>width = 1, height = 1, data = [0]\<rparr>,
                            device_resets := 1\<rparr>)
   \<and> TGVdenoiseFromSparse exact sparse_solver_example cuda_late_fault (depthmap engine_example)
         engine_example
     = Some (Returned False,
             engine_example\<lparr>depthmapTGV := \<lparr>width = 1, height = 1, data = [Fin 0]\<rparr>,
                            device_resets := 1\<rparr>)
   \<and> depthmap engine_example = \<lparr>width = 1, height = 1, data = [Fin (15435039 / 8388608)]\<rparr>
   \<and> depthmap8u engine_example = \<lparr>width = 1, height = 1, data = [71]\<rparr>
   \<and> depthavailable engine_example
   \<and> cudaDevInit cuda_late_fault = Device \<and> device_fault cuda_late_fault = LateFault"
proof -
  have runs:
    "RunAlgorithm exact ncc_high cuda_late_fault engine_example
     = Some (Returned False,
             engine_example\<lparr>depthmap := \<lparr>width = 1, height = 1, data = [Fin 0]\<rparr>,
                            device_resets := 1\<rparr>)"
    "CudaDenoise exact kernels_example params_example cuda_late_fault engine_example
     = Some (Returned False,
             engine_example\<lparr>depthmapdenoised := \<lparr>width = 1, height = 1, data = [Fin 0]\<rparr>,
                            depthmap8udenoised := \<lparr>width = 1, height = 1, data = [0]\<rparr>,
                            device_resets := 1\<rparr>)"
    "TGV exact solver_example cuda_late_fault engine_example
     = Some (Returned False,
             engine_example\<lparr>depthmapTGV := \<lparr>width = 1, height = 1, data = [Fin 0]\<rparr>,
                            depthmap8uTGV := \<lparr>width = 1, height = 1, data = [0]\<rparr>,
                            device_resets := 1\<rparr>)"
    "TGVdenoiseFromSparse exact sparse_solver_example cuda_late_fault (depthmap engine_example)
         engine_example
     = Some (Returned False,
             engine_example\<lparr>depthmapTGV := \<lparr>width = 1, height = 1, data = [Fin 0]\<rparr>,
                            device_resets := 1\<rparr>)"
    by code_simp+
  have facts:
    "depthmap engine_example = \<lparr>width = 1, height = 1, data = [Fin (15435039 / 8388608)]\<rparr>"
    "depthmap8u engine_example = \<lparr>width = 1, height = 1, data = [71]\<rparr>"
    "depthavailable engine_example"
    "cudaDevInit cuda_late_fault = Device" "device_fault cuda_late_fault = LateFault"
    by (simp_all add: engine_example_def cuda_late_fault_def)
  show ?thesis
    using runs facts
      failed_stage_outputs [where rnd = exact and ncc = ncc_high and env = cuda_late_fault
        and st = engine_example
        and sta = "engine_example\<lparr>depthmap := \<lparr>width = 1, height = 1, data = [Fin 0]\<rparr>,
                                  device_resets := 1\<rparr>"
        and k = kernels_example and par = params_example
        and stb = "engine_example\<lparr>depthmapdenoised := \<lparr>width = 1, height = 1, data = [Fin 0]\<rparr>,
                                  depthmap8udenoised := \<lparr>width = 1, height = 1, data = [0]\<rparr>,
                                  device_resets := 1\<rparr>"
        and solver = solver_example
        and stc = "engine_example\<lparr>depthmapTGV := \<lparr>width = 1, height = 1, data = [Fin 0]\<rparr>,
                                  depthmap8uTGV := \<lparr>width = 1, height = 1, data = [0]\<rparr>,
                                  device_resets := 1\<rparr>"
        and sparse = sparse_solver_example and depth = "depthmap engine_example"
        and std = "engine_example\<lparr>depthmapTGV := \<lparr>width = 1, height = 1, data = [Fin 0]\<rparr>,
                                  device_resets := 1\<rparr>"]
    by simp
qed

text \<open>
  C9 as stated fails: a run of \<^verbatim>\<open>RunAlgorithm\<close> that finds no device returns \<^verbatim>\<open>false\<close>, and the
  raw depth map left by an earlier run (one pixel) has been replaced by an empty image of
  the size of the present reference image (two pixels).
\<close>

theorem failed_stage_outputs_counterexample:
  "RunAlgorithm exact ncc_high cuda_no_device
     (engine_example\<lparr>HostRef := \<lparr>width = 2, height = 1, data = [Fin 100, Fin 50]\<rparr>\<rparr>)
   = Some (Returned False,
           engine_example\<lparr>HostRef := \<lparr>width = 2, height = 1, data = [Fin 100, Fin 50]\<rparr>,
                          depthmap := \<lparr>width = 2, height = 1, data = [Fin 0, Fin 0]\<rparr>,
                          device_resets := 1\<rparr>)
   \<and> depthmap (engine_example\<lparr>HostRef := \<lparr>width = 2, height = 1, data = [Fin 100, Fin 50]\<rparr>\<rparr>)
       = \<lparr>width = 1, height = 1, data = [Fin (15435039 / 8388608)]\<rparr>"
  by code_simp


section \<open>Properties of the iterations of the TVL1 denoiser\<close>

lemma CudaDenoise_returns_device:
  assumes "CudaDenoise rnd k par env st = Some (Returned True, st')"
  shows "data (depthmapdenoised st')
           = CudaDenoise_device rnd k par
               (st\<lparr>d_depthmap := Some (Image_new (width (depthmap st)) (height (depthmap st))),
                   depthmapdenoised :=
                     CamImage_reset (width (depthmap st)) (height (depthmap st)) (Fin 0),
                   depthmap8udenoised :=
                     CamImage_reset (width (depthmap st)) (height (depthmap st)) 0\<rparr>)"
  using assms
  by (auto simp: CudaDenoise_def Let_def dest!: reset_and_fail_cases
      split: dev_init.splits if_splits option.splits)


text \<open>
  C6. Whatever the kernels compute, a call of \<^verbatim>\<open>CudaDenoise\<close> that returns \<^verbatim>\<open>true\<close> has run
  exactly \<^verbatim>\<open>niters\<close> iterations on the normalised depth map, with no test that could end
  them early. Each iteration calls the dual kernel \<^verbatim>\<open>denoising_TVL1_calculateP_tensor_weighed\<close>
  with its dual step and then the primal kernel \<^verbatim>\<open>denoising_TVL1_update\<close> with \<^verbatim>\<open>sigma\<close>;
  the dual step is \<^verbatim>\<open>1 + sigma\<close> in the first iteration and \<^verbatim>\<open>sigma\<close> in every later one.
  The refined depth map is the result of these iterations, scaled back to the depth range.
\<close>

theorem CudaDenoise_iterations:
  assumes "CudaDenoise rnd k par env st = Some (Returned True, st')"
  shows
    "(let h = height (depthmap st); w = width (depthmap st);
          span = fsub rnd (zfar st) (znear st);
          T = Anisotropic_diffusion_tensor k
                (element_scale rnd w h (data (HostRef st)) (fdiv rnd (Fin 1) (rnd 255)))
                (beta par) (gamma par);
          rawInput = element_scale rnd w h
                       (element_add rnd w h (data (depthmap st)) (fneg (znear st)))
                       (fdiv rnd (fneg (sigma par)) span);
          normalised = element_scale rnd w h
                         (element_add rnd w h (data (depthmap st)) (fneg (znear st)))
                         (fdiv rnd (Fin 1) span);
          dual_steps = (case niters par of 0 \<Rightarrow> []
                        | Suc m \<Rightarrow> fadd rnd (Fin 1) (sigma par) # replicate m (sigma par));
          iterate = (\<lambda>s currsigma.
             (denoising_TVL1_update k
                (denoising_TVL1_calculateP_tensor_weighed k T (fst (fst s)) currsigma (snd s))
                rawInput (tau par, theta par, lambda par, sigma par) (fst s),
              denoising_TVL1_calculateP_tensor_weighed k T (fst (fst s)) currsigma (snd s)));
          final = foldl iterate
                    ((normalised, Image_new w h), (Image_new w h, Image_new w h)) dual_steps
      in length dual_steps = niters par
       \<and> data (depthmapdenoised st')
           = element_add rnd w h (element_scale rnd w h (fst (fst final)) span) (znear st))"
proof -
  have len: "length (case niters par of 0 \<Rightarrow> []
               | Suc m \<Rightarrow> fadd rnd (Fin 1) (sigma par) # replicate m (sigma par)) = niters par"
    by (simp split: nat.split)
  show ?thesis
    unfolding Let_def
    by (simp only: len CudaDenoise_returns_device [OF assms])
      (simp add: CudaDenoise_device_def Let_def CudaDenoise_loop_unrolled)
qed

theorem CudaDenoise_iterations_witness:
  "CudaDenoise exact kernels_accumulate (params_example\<lparr>niters := 3\<rparr>) cuda_ok engine_example
     = Some (Returned True,
             engine_example\<lparr>d_depthmap := Some [Fin 76],
                            depthmapdenoised := \<lparr>width = 1, height = 1, data = [Fin 76]\<rparr>,
                            depthmap8udenoised := \<lparr>width = 1, height = 1, data = [255]\<rparr>\<rparr>)
   \<and> sigma (params_example\<lparr>niters := 3\<rparr>) = Fin 8
   \<and> (case niters (params_example\<lparr>niters := 3\<rparr>) of 0 \<Rightarrow> []
        | Suc m \<Rightarrow> fadd exact (Fin 1) (sigma (params_example\<lparr>niters := 3\<rparr>))
                    # replicate m (sigma (params_example\<lparr>niters := 3\<rparr>)))
       = [Fin 9, Fin 8, Fin 8]"
proof -
  have run: "CudaDenoise exact kernels_accumulate (params_example\<lparr>niters := 3\<rparr>) cuda_ok
               engine_example
     = Some (Returned True,
             engine_example\<lparr>d_depthmap := Some [Fin 76],
                            depthmapdenoised := \<lparr>width = 1, height = 1, data = [Fin 76]\<rparr>,
                            depthmap8udenoised := \<lparr>width = 1, height = 1, data = [255]\<rparr>\<rparr>)"
    by code_simp
  have steps: "sigma (params_example\<lparr>niters := 3\<rparr>) = Fin 8"
    "(case niters (params_example\<lparr>niters := 3\<rparr>) of 0 \<Rightarrow> []
        | Suc m \<Rightarrow> fadd exact (Fin 1) (sigma (params_example\<lparr>niters := 3\<rparr>))
                    # replicate m (sigma (params_example\<lparr>niters := 3\<rparr>)))
       = [Fin 9, Fin 8, Fin 8]"
    by (simp_all add: params_example_def exact_def numeral_3_eq_3)
  show ?thesis
    using run steps CudaDenoise_iterations [OF run] by simp
qed

end
